theory Spec2Isabelle
  imports Main "HOL-Library.Sublist" "HOL-Library.Multiset"
begin

section \<open>Python strings\<close>

text \<open>
  A Python \<open>str\<close> is a sequence of Unicode code points. It is represented here by its
  UTF-8 encoding, a list of bytes (\<open>string\<close>): ASCII text is represented by itself, and
  \<open>urllib.parse.quote\<close> works on exactly these bytes. A \<open>str\<close> may also hold a lone
  surrogate (\<open>json.loads\<close> delivers one from an escape such as \<open>\ud83d\<close>), which has no
  UTF-8 encoding. It is represented by the three bytes of its generalised form, \<open>ED\<close>,
  \<open>A0\<close> to \<open>BF\<close>, \<open>80\<close> to \<open>BF\<close>, the bytes the \<open>surrogatepass\<close> handler writes. So
  every \<open>str\<close> has exactly one representation, and the strings that \<open>str.encode\<close>
  rejects are those whose representation is not well-formed UTF-8 (\<open>utf8_valid\<close> below).
  Functions that count or classify code points (\<open>len\<close>, \<open>strip\<close>, slicing) are written
  on the representation so that they agree with Python.
\<close>

type_synonym pystr = string

definition is_ascii :: "char \<Rightarrow> bool" where
  "is_ascii c = ((of_char c :: nat) < 128)"

definition in_range :: "nat \<Rightarrow> nat \<Rightarrow> char \<Rightarrow> bool" where
  "in_range lo hi c = (lo \<le> of_char c \<and> (of_char c :: nat) \<le> hi)"

definition ascii_letters :: string where
  "ascii_letters = ''abcdefghijklmnopqrstuvwxyzABCDEFGHIJKLMNOPQRSTUVWXYZ''"

definition digits :: string where
  "digits = ''0123456789''"

text \<open>\<open>str.split(sep)\<close> for a one-character separator: always at least one part.\<close>

fun split_aux :: "char \<Rightarrow> pystr \<Rightarrow> pystr \<times> pystr list" where
  "split_aux sep [] = ([], [])"
| "split_aux sep (x # xs) =
     (case split_aux sep xs of
        (p, ps) \<Rightarrow> if x = sep then ([], p # ps) else (x # p, ps))"

definition py_split :: "char \<Rightarrow> pystr \<Rightarrow> pystr list" where
  "py_split sep s = (case split_aux sep s of (p, ps) \<Rightarrow> p # ps)"

text \<open>\<open>sub in s\<close> for strings.\<close>

fun py_in :: "pystr \<Rightarrow> pystr \<Rightarrow> bool" where
  "py_in sub [] = (sub = [])"
| "py_in sub (x # xs) = (prefix sub (x # xs) \<or> py_in sub xs)"

text \<open>\<open>s.partition(sep)\<close> restricted to what \<open>s.split(sep, 1)\<close> needs when \<open>sep in s\<close>:
  the text before the first separator and the text after it.\<close>

definition before_first :: "char \<Rightarrow> pystr \<Rightarrow> pystr" where
  "before_first sep s = takeWhile (\<lambda>c. c \<noteq> sep) s"

definition after_first :: "char \<Rightarrow> pystr \<Rightarrow> pystr" where
  "after_first sep s = drop 1 (dropWhile (\<lambda>c. c \<noteq> sep) s)"

subsection \<open>UTF-8\<close>

text \<open>
  \<open>bytes.decode('utf-8', 'replace')\<close>, seen on the representation: well-formed
  sequences are kept, and every maximal ill-formed subpart becomes U+FFFD
  (\<open>EF BF BD\<close>), which is how CPython's decoder reports and replaces errors.
\<close>

definition seq_len :: "char \<Rightarrow> nat" where
  "seq_len b =
     (if in_range 0x00 0x7F b then 1
      else if in_range 0xC2 0xDF b then 2
      else if in_range 0xE0 0xEF b then 3
      else if in_range 0xF0 0xF4 b then 4
      else 0)"

definition second_ok :: "char \<Rightarrow> char \<Rightarrow> bool" where
  "second_ok b0 b1 =
     (if b0 = CHR 0xE0 then in_range 0xA0 0xBF b1
      else if b0 = CHR 0xED then in_range 0x80 0x9F b1
      else if b0 = CHR 0xF0 then in_range 0x90 0xBF b1
      else if b0 = CHR 0xF4 then in_range 0x80 0x8F b1
      else in_range 0x80 0xBF b1)"

definition is_cont :: "char \<Rightarrow> bool" where
  "is_cont b = in_range 0x80 0xBF b"

text \<open>The number of continuation bytes after the lead byte \<open>b0\<close> that are acceptable,
  at most \<open>n\<close>.\<close>

definition cont_run :: "char \<Rightarrow> nat \<Rightarrow> string \<Rightarrow> nat" where
  "cont_run b0 n bs =
     (case bs of
        [] \<Rightarrow> 0
      | b1 # bs' \<Rightarrow>
          if n = 0 \<or> \<not> second_ok b0 b1 then 0
          else Suc (length (takeWhile is_cont (take (n - 1) bs'))))"

definition replacement_char :: string where
  "replacement_char = [CHR 0xEF, CHR 0xBF, CHR 0xBD]"

function decode_replace :: "string \<Rightarrow> pystr" where
  "decode_replace [] = []"
| "decode_replace (b0 # bs) =
     (let n = seq_len b0; k = cont_run b0 (n - 1) bs in
      if n \<noteq> 0 \<and> k = n - 1 then b0 # take k bs @ decode_replace (drop k bs)
      else replacement_char @ decode_replace (drop k bs))"
  by pat_completeness auto
termination
  by (relation "measure length") auto

subsection \<open>urllib.parse.quote and unquote\<close>

definition always_safe :: string where
  "always_safe = ''ABCDEFGHIJKLMNOPQRSTUVWXYZabcdefghijklmnopqrstuvwxyz0123456789_.-~''"

definition hex_upper :: "nat \<Rightarrow> char" where
  "hex_upper n = ''0123456789ABCDEF'' ! n"

text \<open>The quoter of \<open>quote_from_bytes\<close>: a safe byte is itself, any other is \<open>%XX\<close>.\<close>

definition byte_quoter :: "string \<Rightarrow> char \<Rightarrow> string" where
  "byte_quoter safe b =
     (if b \<in> set always_safe \<or> (b \<in> set safe \<and> is_ascii b) then [b]
      else [CHR ''%'', hex_upper (of_char b div 16), hex_upper (of_char b mod 16)])"

definition quote_from_bytes :: "string \<Rightarrow> string \<Rightarrow> pystr" where
  "quote_from_bytes safe bs = concat (map (byte_quoter safe) bs)"

text \<open>
  \<open>quote(string)\<close> with its default \<open>safe='/'\<close>, as the repository calls it, for a
  string that has a UTF-8 encoding: \<open>quote\<close> first encodes its argument, and from there
  on it is \<open>quote_from_bytes\<close>. The encoding step, which raises for a lone surrogate, is
  \<open>encode_strict\<close> below; \<open>build_text_fragment_link\<close> goes through it.
\<close>

definition quote :: "pystr \<Rightarrow> pystr" where
  "quote s = quote_from_bytes ''/'' s"

definition is_hexdig :: "char \<Rightarrow> bool" where
  "is_hexdig c = (c \<in> set ''0123456789ABCDEFabcdef'')"

definition hex_value :: "char \<Rightarrow> nat" where
  "hex_value c =
     (if in_range 0x30 0x39 c then of_char c - 0x30
      else if in_range 0x41 0x46 c then of_char c - 0x41 + 10
      else of_char c - 0x61 + 10)"

text \<open>One item of \<open>string.split(b'%')[1:]\<close> in \<open>_unquote_impl\<close>: two hex digits in front
  give a byte, anything else keeps its percent sign.\<close>

definition unquote_item :: "string \<Rightarrow> string" where
  "unquote_item item =
     (case item of
        a # b # rest \<Rightarrow>
          if is_hexdig a \<and> is_hexdig b then char_of (16 * hex_value a + hex_value b) # rest
          else CHR ''%'' # item
      | _ \<Rightarrow> CHR ''%'' # item)"

definition unquote_impl :: "string \<Rightarrow> string" where
  "unquote_impl s =
     (case split_aux CHR ''%'' s of (bits0, bits) \<Rightarrow> bits0 @ concat (map unquote_item bits))"

text \<open>
  \<open>unquote\<close> decodes each maximal run of ASCII characters on its own and copies the
  characters between the runs. \<open>run\<close> holds the current ASCII run, reversed.
\<close>

fun unquoted_parts :: "string \<Rightarrow> pystr \<Rightarrow> pystr" where
  "unquoted_parts run [] = decode_replace (unquote_impl (rev run))"
| "unquoted_parts run (c # cs) =
     (if is_ascii c then unquoted_parts (c # run) cs
      else decode_replace (unquote_impl (rev run)) @ c # unquoted_parts [] cs)"

definition unquote :: "pystr \<Rightarrow> pystr" where
  "unquote s = (if CHR ''%'' \<notin> set s then s else unquoted_parts [] s)"

section \<open>Exceptions\<close>

text \<open>The exceptions that matter to the repository's \<open>try\<close> blocks. Every handler of
  the repository is \<open>except Exception\<close> (or a subclass followed by it), so a handler
  catches each of them.\<close>

datatype py_exception =
    ValueError
  | KeyError
  | TypeError
  | IndexError
  | AttributeError
  | ConnectionError
  | HTTPError
  | JSONDecodeError
  | ValidationError
  | ParserError
  | GatewayError
  | UnicodeEncodeError

section \<open>urllib.parse.urlparse\<close>

text \<open>
  \<open>urlsplit\<close> and \<open>urlparse\<close> of CPython 3.12. Two of the library's checks on a network
  location are not text processing: the validation of a bracketed host (through
  \<open>ipaddress\<close>) and the NFKC normalisation check of a non-ASCII host. Both only decide
  whether \<open>ValueError\<close> is raised; they are parameters, consulted exactly where the
  library consults them.
\<close>

record stdlib =
  bracketed_host_invalid :: "pystr \<Rightarrow> bool"
  nfkc_netloc_invalid :: "pystr \<Rightarrow> bool"

record split_result =
  scheme :: pystr
  netloc :: pystr
  path :: pystr
  query :: pystr
  fragment :: pystr

record parse_result = split_result +
  params :: pystr

definition c0_control_or_space :: "char \<Rightarrow> bool" where
  "c0_control_or_space c = in_range 0x00 0x20 c"

definition unsafe_url_byte :: "char \<Rightarrow> bool" where
  "unsafe_url_byte c = (c \<in> set [CHR 0x09, CHR 0x0D, CHR 0x0A])"

definition scheme_chars :: string where
  "scheme_chars = ascii_letters @ digits @ ''+-.''"

definition ascii_lower :: "char \<Rightarrow> char" where
  "ascii_lower c = (if in_range 0x41 0x5A c then char_of (of_char c + (32::nat)) else c)"

text \<open>The scheme: the text before the first colon, when it is not empty, starts with an
  ASCII letter and consists of scheme characters.\<close>

definition split_scheme :: "pystr \<Rightarrow> pystr \<times> pystr" where
  "split_scheme url =
     (if CHR '':'' \<in> set url then
        (case before_first CHR '':'' url of
           [] \<Rightarrow> ([], url)
         | c # cs \<Rightarrow>
             if c \<in> set ascii_letters \<and> list_all (\<lambda>x. x \<in> set scheme_chars) (c # cs)
             then (map ascii_lower (c # cs), after_first CHR '':'' url)
             else ([], url))
      else ([], url))"

definition netloc_delim :: "char \<Rightarrow> bool" where
  "netloc_delim c = (c \<in> set ''/?#'')"

text \<open>\<open>_splitnetloc(url, 2)\<close>: the network location ends at the earliest of
  \<open>/\<close>, \<open>?\<close> and \<open>#\<close>.\<close>

definition splitnetloc :: "pystr \<Rightarrow> pystr \<times> pystr" where
  "splitnetloc url =
     (takeWhile (\<lambda>c. \<not> netloc_delim c) (drop 2 url),
      dropWhile (\<lambda>c. \<not> netloc_delim c) (drop 2 url))"

definition split_once :: "char \<Rightarrow> pystr \<Rightarrow> pystr \<times> pystr" where
  "split_once sep url =
     (if sep \<in> set url then (before_first sep url, after_first sep url) else (url, []))"

definition urlsplit :: "stdlib \<Rightarrow> pystr \<Rightarrow> py_exception + split_result" where
  "urlsplit lib url0 =
     (let url1 = dropWhile c0_control_or_space url0;
          url2 = filter (\<lambda>c. \<not> unsafe_url_byte c) url1;
          (sch, url3) = split_scheme url2;
          has_netloc = (take 2 url3 = ''//'');
          (nl, url4) = (if has_netloc then splitnetloc url3 else ([], url3));
          open_br = (CHR ''['' \<in> set nl);
          close_br = (CHR '']'' \<in> set nl)
      in if has_netloc \<and> ((open_br \<and> \<not> close_br) \<or> (close_br \<and> \<not> open_br)) then Inl ValueError
         else if has_netloc \<and> open_br \<and> close_br \<and> bracketed_host_invalid lib nl then Inl ValueError
         else
           (let (url5, frag) = split_once CHR ''#'' url4;
                (url6, qry) = split_once CHR ''?'' url5
            in if nl \<noteq> [] \<and> \<not> list_all is_ascii nl \<and> nfkc_netloc_invalid lib nl
               then Inl ValueError
               else Inr \<lparr>scheme = sch, netloc = nl, path = url6, query = qry, fragment = frag\<rparr>))"

definition uses_params :: "pystr list" where
  "uses_params = ['''', ''ftp'', ''hdl'', ''prospero'', ''http'', ''imap'', ''https'', ''shttp'',
     ''rtsp'', ''rtsps'', ''rtspu'', ''sip'', ''sips'', ''mms'', ''sftp'', ''tel'']"

text \<open>\<open>_splitparams\<close>: the parameters start at the first semicolon of the last path
  segment.\<close>

definition splitparams :: "pystr \<Rightarrow> pystr \<times> pystr" where
  "splitparams url =
     (if CHR ''/'' \<in> set url then
        (let last_seg = rev (takeWhile (\<lambda>c. c \<noteq> CHR ''/'') (rev url));
             front = take (length url - length last_seg) url
         in if CHR '';'' \<in> set last_seg
            then (front @ before_first CHR '';'' last_seg, after_first CHR '';'' last_seg)
            else (url, []))
      else (before_first CHR '';'' url, after_first CHR '';'' url))"

definition urlparse :: "stdlib \<Rightarrow> pystr \<Rightarrow> py_exception + parse_result" where
  "urlparse lib url =
     (case urlsplit lib url of
        Inl e \<Rightarrow> Inl e
      | Inr r \<Rightarrow>
          (let (p, ps) = (if scheme r \<in> set uses_params \<and> CHR '';'' \<in> set (path r)
                          then splitparams (path r) else (path r, []))
           in Inr \<lparr>scheme = scheme r, netloc = netloc r, path = p, query = query r,
                    fragment = fragment r, params = ps\<rparr>))"

section \<open>The Wikipedia scraper (utils/wikipedia_scraper.py)\<close>

subsection \<open>Title extraction\<close>

text \<open>
  \<open>_extract_title_from_wiki_url\<close>: any exception of the parse gives \<open>None\<close>; the host
  test is \<open>"wikipedia.org" in parsed.netloc\<close>; the title is the decoded third part of
  the path split at \<open>/\<close>.
\<close>

definition extract_title_from_wiki_url :: "stdlib \<Rightarrow> pystr \<Rightarrow> pystr option" where
  "extract_title_from_wiki_url lib url =
     (case urlparse lib url of
        Inl e \<Rightarrow> None
      | Inr parsed \<Rightarrow>
          if \<not> py_in ''wikipedia.org'' (netloc parsed) then None
          else
            (let parts = py_split CHR ''/'' (path parsed) in
             if length parts \<ge> 3 \<and> parts ! 1 = ''wiki'' then Some (unquote (parts ! 2))
             else None))"

subsection \<open>More string operations\<close>

text \<open>
  The characters \<open>str.isspace\<close> accepts, each in its UTF-8 form: U+0009 to U+000D,
  U+001C to U+0020, U+0085, U+00A0, U+1680, U+2000 to U+200A, U+2028, U+2029, U+202F,
  U+205F and U+3000.
\<close>

definition whitespace_chars :: "string list" where
  "whitespace_chars =
     map (\<lambda>c. [c]) [CHR 0x09, CHR 0x0A, CHR 0x0B, CHR 0x0C, CHR 0x0D,
                     CHR 0x1C, CHR 0x1D, CHR 0x1E, CHR 0x1F, CHR 0x20] @
     [[CHR 0xC2, CHR 0x85], [CHR 0xC2, CHR 0xA0], [CHR 0xE1, CHR 0x9A, CHR 0x80]] @
     map (\<lambda>c. [CHR 0xE2, CHR 0x80, c])
       [CHR 0x80, CHR 0x81, CHR 0x82, CHR 0x83, CHR 0x84, CHR 0x85, CHR 0x86, CHR 0x87,
        CHR 0x88, CHR 0x89, CHR 0x8A, CHR 0xA8, CHR 0xA9, CHR 0xAF] @
     [[CHR 0xE2, CHR 0x81, CHR 0x9F], [CHR 0xE3, CHR 0x80, CHR 0x80]]"

text \<open>The length of the first non-empty pattern that starts \<open>s\<close>; 0 when there is none.\<close>

definition front_len :: "string list \<Rightarrow> string \<Rightarrow> nat" where
  "front_len pats s =
     (case find (\<lambda>w. w \<noteq> [] \<and> prefix w s) pats of None \<Rightarrow> 0 | Some w \<Rightarrow> length w)"

function strip_front :: "string list \<Rightarrow> string \<Rightarrow> string" where
  "strip_front pats s =
     (if front_len pats s = 0 then s else strip_front pats (drop (front_len pats s) s))"
  by pat_completeness auto
termination
proof (relation "measure (\<lambda>(pats, s). length s)")
  show "wf (measure (\<lambda>(pats, s). length s))"
    by simp
next
  fix pats :: "string list" and s :: string
  assume nz: "front_len pats s \<noteq> 0"
  then obtain w where w: "w \<noteq> []" "prefix w s"
    by (auto simp: front_len_def split: option.splits dest: find_Some_iff [THEN iffD1])
  then have "s \<noteq> []"
    by auto
  with nz show "((pats, drop (front_len pats s) s), (pats, s)) \<in> measure (\<lambda>(pats, s). length s)"
    by simp
qed

declare strip_front.simps [simp del]

definition py_lstrip :: "pystr \<Rightarrow> pystr" where
  "py_lstrip s = strip_front whitespace_chars s"

definition py_rstrip :: "pystr \<Rightarrow> pystr" where
  "py_rstrip s = rev (strip_front (map rev whitespace_chars) (rev s))"

text \<open>\<open>s.strip()\<close>.\<close>

definition py_strip :: "pystr \<Rightarrow> pystr" where
  "py_strip s = py_rstrip (py_lstrip s)"

text \<open>\<open>len(s)\<close>: the number of code points, that is of bytes that are not continuation
  bytes.\<close>

definition py_len :: "pystr \<Rightarrow> nat" where
  "py_len s = length (filter (\<lambda>b. \<not> is_cont b) s)"

text \<open>\<open>sep.join(xs)\<close>.\<close>

fun py_join :: "pystr \<Rightarrow> pystr list \<Rightarrow> pystr" where
  "py_join sep [] = []"
| "py_join sep [x] = x"
| "py_join sep (x # y # ys) = x @ sep @ py_join sep (y # ys)"

subsection \<open>The HTTP session and the HTML parser\<close>

text \<open>
  The scraper's effects are its requests through the shared session, the pause before
  the generic tier and the error line it prints. They are recorded, in order, in a
  history. The network is a parameter: what a request returns (a response, or an
  exception of the transport) may depend on the request and on everything done before.
\<close>

record request =
  req_url :: pystr
  req_accept :: pystr

record response =
  status_code :: nat
  resp_text :: pystr

datatype action = Http_get request | Sleep | Print_error

type_synonym history = "action list"

type_synonym network = "history \<Rightarrow> request \<Rightarrow> py_exception + response"

text \<open>A computation of the scraper: from the history so far to its result, or the
  exception it raises, and the history after it.\<close>

type_synonym 'a io = "history \<Rightarrow> (py_exception + 'a) \<times> history"

definition session_accept :: pystr where
  "session_accept = ''text/html,*/*''"

definition session_get :: "network \<Rightarrow> request \<Rightarrow> response io" where
  "session_get net rq h = (net h rq, h @ [Http_get rq])"

text \<open>
  BeautifulSoup is a library. Its part in both HTML tiers is the same pipeline: parse the
  document, take the container named by a selector when there is one (the whole
  document otherwise), delete every element matching one of the removal selectors, and
  return \<open>get_text(strip=True)\<close> of the elements matching the block selector, in document
  order. The pipeline is a parameter; the selectors the repository passes to it and
  what the repository does with the texts are modelled.
\<close>

type_synonym html_parser =
  "pystr option \<Rightarrow> pystr list \<Rightarrow> pystr \<Rightarrow> pystr \<Rightarrow> py_exception + pystr list"

definition REMOVE_SELECTORS :: "pystr list" where
  "REMOVE_SELECTORS = [''.navbox'', ''.infobox'', ''.sidebar'', ''.reference'',
     ''.mw-editsection'', ''.mw-jump-link'', ''.toc'', ''.catlinks'', ''.mw-cite-backlink'']"

definition block_selector :: pystr where
  "block_selector = ''h1,h2,h3,h4,h5,h6,p,li''"

definition join_blocks :: "pystr list \<Rightarrow> pystr option" where
  "join_blocks texts =
     (let blocks = filter (\<lambda>t. t \<noteq> [] \<and> py_len t > 10) texts in
      if blocks \<noteq> [] then Some (py_join [CHR 0x0A, CHR 0x0A] blocks) else None)"

subsection \<open>The three tiers\<close>

definition plain_request :: "pystr \<Rightarrow> request" where
  "plain_request title =
     \<lparr>req_url = ''https://en.wikipedia.org/api/rest_v1/page/plain/'' @ title,
      req_accept = session_accept\<rparr>"

definition mobile_request :: "pystr \<Rightarrow> request" where
  "mobile_request title =
     \<lparr>req_url = ''https://en.wikipedia.org/api/rest_v1/page/mobile-html/'' @ title,
      req_accept = ''text/html''\<rparr>"

definition generic_request :: "pystr \<Rightarrow> request" where
  "generic_request url = \<lparr>req_url = url, req_accept = session_accept\<rparr>"

definition wiki_rest_plain_text :: "network \<Rightarrow> pystr \<Rightarrow> pystr option io" where
  "wiki_rest_plain_text net title h =
     (case session_get net (plain_request title) h of
        (Inl e, h') \<Rightarrow> (Inl e, h')
      | (Inr r, h') \<Rightarrow>
          if status_code r = 200 \<and> py_strip (resp_text r) \<noteq> [] then (Inr (Some (resp_text r)), h')
          else (Inr None, h'))"

definition wiki_rest_mobile_html :: "html_parser \<Rightarrow> network \<Rightarrow> pystr \<Rightarrow> pystr option io" where
  "wiki_rest_mobile_html soup net title h =
     (case session_get net (mobile_request title) h of
        (Inl e, h') \<Rightarrow> (Inl e, h')
      | (Inr r, h') \<Rightarrow>
          if status_code r \<noteq> 200 then (Inr None, h')
          else
            (case soup None REMOVE_SELECTORS block_selector (resp_text r) of
               Inl e \<Rightarrow> (Inl e, h')
             | Inr texts \<Rightarrow> (Inr (join_blocks texts), h')))"

text \<open>\<open>r.raise_for_status()\<close> raises \<open>HTTPError\<close> for a status from 400 to 599.\<close>

definition raise_for_status :: "response \<Rightarrow> py_exception + unit" where
  "raise_for_status r =
     (if 400 \<le> status_code r \<and> status_code r < 600 then Inl HTTPError else Inr ())"

definition generic_html_scrape :: "html_parser \<Rightarrow> network \<Rightarrow> pystr \<Rightarrow> pystr option io" where
  "generic_html_scrape soup net url h =
     (case session_get net (generic_request url) h of
        (Inl e, h') \<Rightarrow> (Inl e, h')
      | (Inr r, h') \<Rightarrow>
          (case raise_for_status r of
             Inl e \<Rightarrow> (Inl e, h')
           | Inr _ \<Rightarrow>
               (case soup (Some ''#mw-content-text .mw-parser-output'') REMOVE_SELECTORS
                       block_selector (resp_text r) of
                  Inl e \<Rightarrow> (Inl e, h')
                | Inr texts \<Rightarrow> (Inr (join_blocks texts), h'))))"

subsection \<open>scrape_wikipedia_content\<close>

text \<open>
  One REST tier inside its \<open>try\<close>: \<open>txt = tier(title); if txt: return txt\<close>, with every
  exception passed over. \<open>Some txt\<close> is the early return, \<open>None\<close> falls through.
\<close>

definition try_tier :: "pystr option io \<Rightarrow> history \<Rightarrow> pystr option \<times> history" where
  "try_tier tier h =
     (case tier h of
        (Inr (Some txt), h') \<Rightarrow> if txt \<noteq> [] then (Some txt, h') else (None, h')
      | (Inr None, h') \<Rightarrow> (None, h')
      | (Inl e, h') \<Rightarrow> (None, h'))"

text \<open>The block under \<open>if title:\<close>: plain text, then mobile HTML, then the pause.\<close>

definition rest_tiers ::
  "html_parser \<Rightarrow> network \<Rightarrow> pystr \<Rightarrow> history \<Rightarrow> pystr option \<times> history" where
  "rest_tiers soup net title h =
     (case try_tier (wiki_rest_plain_text net title) h of
        (Some txt, h1) \<Rightarrow> (Some txt, h1)
      | (None, h1) \<Rightarrow>
          (case try_tier (wiki_rest_mobile_html soup net title) h1 of
             (Some txt, h2) \<Rightarrow> (Some txt, h2)
           | (None, h2) \<Rightarrow> (None, h2 @ [Sleep])))"

definition scrape_wikipedia_content ::
  "stdlib \<Rightarrow> html_parser \<Rightarrow> network \<Rightarrow> pystr \<Rightarrow> pystr option io" where
  "scrape_wikipedia_content lib soup net url h =
     (case (case extract_title_from_wiki_url lib url of
              Some title \<Rightarrow> if title \<noteq> [] then rest_tiers soup net title h else (None, h)
            | None \<Rightarrow> (None, h)) of
        (Some txt, h1) \<Rightarrow> (Inr (Some txt), h1)
      | (None, h1) \<Rightarrow>
          (case generic_html_scrape soup net url h1 of
             (Inr res, h2) \<Rightarrow> (Inr res, h2)
           | (Inl e, h2) \<Rightarrow> (Inr None, h2 @ [Print_error])))"

text \<open>The requests among the actions of a history, in order.\<close>

fun requests_of :: "history \<Rightarrow> request list" where
  "requests_of [] = []"
| "requests_of (Http_get rq # h) = rq # requests_of h"
| "requests_of (Sleep # h) = requests_of h"
| "requests_of (Print_error # h) = requests_of h"

subsection \<open>Well-formed UTF-8\<close>

text \<open>
  The byte strings that represent a Python string: sequences of well-formed UTF-8
  characters (the Unicode standard's table of well-formed byte sequences, which
  \<open>seq_len\<close> and \<open>second_ok\<close> spell out).
\<close>

function utf8_valid :: "string \<Rightarrow> bool" where
  "utf8_valid [] = True"
| "utf8_valid (b0 # bs) =
     (let n = seq_len b0 in
      n \<noteq> 0 \<and> cont_run b0 (n - 1) bs = n - 1 \<and> utf8_valid (drop (n - 1) bs))"
  by pat_completeness auto
termination
  by (relation "measure length") auto

text \<open>
  The encoder, from code points: \<open>str.encode('utf-8')\<close> for a string of Unicode scalar
  values (code points below 0x110000 that are not surrogates).
\<close>

definition scalar_value :: "nat \<Rightarrow> bool" where
  "scalar_value cp = (cp < 0x110000 \<and> \<not> (0xD800 \<le> cp \<and> cp \<le> 0xDFFF))"

definition utf8_encode :: "nat \<Rightarrow> string" where
  "utf8_encode cp =
     (if cp < 0x80 then [char_of cp]
      else if cp < 0x800 then [char_of (0xC0 + cp div 64), char_of (0x80 + cp mod 64)]
      else if cp < 0x10000 then
        [char_of (0xE0 + cp div 4096), char_of (0x80 + cp div 64 mod 64),
         char_of (0x80 + cp mod 64)]
      else
        [char_of (0xF0 + cp div 262144), char_of (0x80 + cp div 4096 mod 64),
         char_of (0x80 + cp div 64 mod 64), char_of (0x80 + cp mod 64)])"

definition encode_utf8 :: "nat list \<Rightarrow> pystr" where
  "encode_utf8 cps = concat (map utf8_encode cps)"

text \<open>
  \<open>s.encode('utf-8', 'strict')\<close>, the first step of \<open>quote(s)\<close> for a non-empty \<open>str\<close>: it
  raises \<open>UnicodeEncodeError\<close> when the string holds a lone surrogate, and returns the
  UTF-8 bytes otherwise.
\<close>

definition encode_strict :: "pystr \<Rightarrow> py_exception + string" where
  "encode_strict s = (if utf8_valid s then Inr s else Inl UnicodeEncodeError)"

section \<open>The evidence link (utils/factcheck.py, utils/local_factcheck_full.py)\<close>

text \<open>
  \<open>build_text_fragment_link\<close>, the same in both modules. \<open>not evidence\<close> holds for
  \<open>None\<close> and for the empty string. Otherwise \<open>quote(evidence)\<close> encodes the evidence,
  which may raise, and quotes the bytes.
\<close>

definition build_text_fragment_link :: "pystr \<Rightarrow> pystr option \<Rightarrow> py_exception + pystr" where
  "build_text_fragment_link url evidence =
     (case evidence of
        None \<Rightarrow> Inr url
      | Some e \<Rightarrow>
          if e = [] then Inr url
          else (case encode_strict e of
                  Inl err \<Rightarrow> Inl err
                | Inr bs \<Rightarrow> Inr (url @ ''#:~:text='' @ quote bs)))"

section \<open>JSON values\<close>

text \<open>
  What \<open>json.loads\<close> and \<open>response.json()\<close> return. A dict is an association list (keys in
  document order). A float is kept only as its truth value (whether it is non-zero), the
  one thing the repository asks of a number.
\<close>

datatype json =
    JNull
  | JBool bool
  | JInt int
  | JFloat bool
  | JStr pystr
  | JList "json list"
  | JObj "(pystr \<times> json) list"

text \<open>Python's truth value of an object.\<close>

fun py_truthy :: "json \<Rightarrow> bool" where
  "py_truthy JNull = False"
| "py_truthy (JBool b) = b"
| "py_truthy (JInt n) = (n \<noteq> 0)"
| "py_truthy (JFloat nonzero) = nonzero"
| "py_truthy (JStr s) = (s \<noteq> [])"
| "py_truthy (JList xs) = (xs \<noteq> [])"
| "py_truthy (JObj kvs) = (kvs \<noteq> [])"

text \<open>\<open>obj.get(key, default)\<close>: only a dict has the method.\<close>

fun py_get :: "json \<Rightarrow> pystr \<Rightarrow> json \<Rightarrow> py_exception + json" where
  "py_get (JObj kvs) key dflt = Inr (case map_of kvs key of Some v \<Rightarrow> v | None \<Rightarrow> dflt)"
| "py_get v key dflt = Inl AttributeError"

text \<open>The characters of a string: each lead byte with the continuation bytes after it.\<close>

function utf8_chars :: "pystr \<Rightarrow> pystr list" where
  "utf8_chars [] = []"
| "utf8_chars (b # bs) = (b # takeWhile is_cont bs) # utf8_chars (dropWhile is_cont bs)"
  by pat_completeness auto
termination
  by (relation "measure length") (auto simp: length_dropWhile_le less_Suc_eq_le)

text \<open>\<open>s[:n]\<close> for \<open>n \<ge> 0\<close>: the first \<open>n\<close> characters.\<close>

definition py_prefix :: "nat \<Rightarrow> pystr \<Rightarrow> pystr" where
  "py_prefix n s = concat (take n (utf8_chars s))"

text \<open>\<open>for x in obj\<close>: the elements of a list, the keys of a dict, the characters of a
  string; nothing else is iterable.\<close>

fun py_iter :: "json \<Rightarrow> py_exception + json list" where
  "py_iter (JList xs) = Inr xs"
| "py_iter (JObj kvs) = Inr (map (\<lambda>kv. JStr (fst kv)) kvs)"
| "py_iter (JStr s) = Inr (map JStr (utf8_chars s))"
| "py_iter v = Inl TypeError"

text \<open>\<open>xs[:n]\<close> for a Python integer \<open>n\<close>: a negative \<open>n\<close> counts from the end.\<close>

definition py_slice_to :: "int \<Rightarrow> 'a list \<Rightarrow> 'a list" where
  "py_slice_to n xs = (if 0 \<le> n then take (nat n) xs else take (length xs - nat (- n)) xs)"

section \<open>Search (utils/google_custom_search.py)\<close>

text \<open>
  The search collaborator is \<open>requests.get\<close> on the custom-search endpoint: for a query it
  raises, or returns a response with a status and a body that \<open>resp.json()\<close> parses or
  rejects.
\<close>

record json_response =
  json_status :: nat
  json_body :: "py_exception + json"

type_synonym search_engine = "pystr \<Rightarrow> py_exception + json_response"

definition json_raise_for_status :: "json_response \<Rightarrow> py_exception + unit" where
  "json_raise_for_status r =
     (if 400 \<le> json_status r \<and> json_status r < 600 then Inl HTTPError else Inr ())"

text \<open>\<open>[item.get("link") for item in items if item.get("link")]\<close>.\<close>

fun collect_links :: "json list \<Rightarrow> py_exception + json list" where
  "collect_links [] = Inr []"
| "collect_links (item # items) =
     (case py_get item ''link'' JNull of
        Inl e \<Rightarrow> Inl e
      | Inr v \<Rightarrow>
          (case collect_links items of
             Inl e \<Rightarrow> Inl e
           | Inr vs \<Rightarrow> Inr (if py_truthy v then v # vs else vs)))"

text \<open>The body of the \<open>try\<close> up to \<open>urls\<close>: the ranked result links of the response.\<close>

definition result_links :: "search_engine \<Rightarrow> pystr \<Rightarrow> py_exception + json list" where
  "result_links search qry =
     (case search qry of
        Inl e \<Rightarrow> Inl e
      | Inr resp \<Rightarrow>
          (case json_raise_for_status resp of
             Inl e \<Rightarrow> Inl e
           | Inr _ \<Rightarrow>
               (case json_body resp of
                  Inl e \<Rightarrow> Inl e
                | Inr data \<Rightarrow>
                    (case py_get data ''items'' (JList []) of
                       Inl e \<Rightarrow> Inl e
                     | Inr items \<Rightarrow>
                         (case py_iter items of
                            Inl e \<Rightarrow> Inl e
                          | Inr xs \<Rightarrow> collect_links xs)))))"

text \<open>\<open>get_first_n_results_urls\<close>: \<open>urls[:n] if urls else None\<close>, and \<open>None\<close> from the handler
  of any exception.\<close>

definition get_first_n_results_urls ::
  "search_engine \<Rightarrow> pystr \<Rightarrow> int \<Rightarrow> py_exception + json list option" where
  "get_first_n_results_urls search qry n =
     (case result_links search qry of
        Inl e \<Rightarrow> Inr None
      | Inr urls \<Rightarrow> Inr (if urls \<noteq> [] then Some (py_slice_to n urls) else None))"

section \<open>The stages that call the language model\<close>

text \<open>
  Every stage below sends one request to a language model, with a prompt built from its
  arguments, and works on the reply. The reply is the parameter: for the hosted gateway
  what \<open>client.responses.create\<close> did (it raised, or returned a response whose
  \<open>output_text\<close>, read with \<open>getattr(resp, "output_text", None)\<close>, is a string or
  \<open>None\<close>); for the local server what \<open>requests.post\<close> did.
\<close>

record claim_result =
  label :: pystr
  evidence :: pystr

subsection \<open>The hosted gateway (utils/claims.py, utils/factcheck.py)\<close>

type_synonym hosted_reply = "py_exception + pystr option"

text \<open>\<open>x or ""\<close> for an optional string.\<close>

definition or_empty :: "pystr option \<Rightarrow> pystr" where
  "or_empty x = (case x of None \<Rightarrow> [] | Some s \<Rightarrow> s)"

text \<open>\<open>ExtractedClaims.model_validate_json\<close> and \<open>ClaimResult.model_validate_json\<close> are
  pydantic's: parameters, which return the model or raise.\<close>

definition extract_claims_from_query ::
  "(pystr \<Rightarrow> py_exception + pystr list) \<Rightarrow> hosted_reply \<Rightarrow> py_exception + pystr list" where
  "extract_claims_from_query validate reply =
     (case reply of
        Inl e \<Rightarrow> Inr []
      | Inr raw \<Rightarrow>
          if or_empty raw = [] then Inr []
          else (case validate (or_empty raw) of Inl e \<Rightarrow> Inr [] | Inr claims \<Rightarrow> Inr claims))"

definition optimize_claim :: "hosted_reply \<Rightarrow> pystr \<Rightarrow> py_exception + pystr" where
  "optimize_claim reply claim =
     (case reply of
        Inl e \<Rightarrow> Inr claim
      | Inr output_text \<Rightarrow> Inr (or_empty output_text))"

definition get_query_for_wiki_article :: "hosted_reply \<Rightarrow> py_exception + pystr" where
  "get_query_for_wiki_article reply =
     (case reply of
        Inl e \<Rightarrow> Inr []
      | Inr output_text \<Rightarrow> Inr (or_empty output_text))"

definition find_answer_in_article ::
  "(pystr \<Rightarrow> py_exception + claim_result) \<Rightarrow> hosted_reply \<Rightarrow>
   py_exception + claim_result option" where
  "find_answer_in_article validate reply =
     (case reply of
        Inl e \<Rightarrow> Inr None
      | Inr output_text \<Rightarrow>
          if or_empty output_text = [] then Inr None
          else
            (case validate (or_empty output_text) of
               Inr res \<Rightarrow> Inr (Some res)
             | Inl e \<Rightarrow> Inr (Some \<lparr>label = ''False'', evidence = or_empty output_text\<rparr>)))"

subsection \<open>The local client (utils/local_openai_client.py)\<close>

text \<open>Subscripts and \<open>len\<close> on a JSON value, with the exceptions Python raises.\<close>

fun py_getitem :: "json \<Rightarrow> pystr \<Rightarrow> py_exception + json" where
  "py_getitem (JObj kvs) key = (case map_of kvs key of Some v \<Rightarrow> Inr v | None \<Rightarrow> Inl KeyError)"
| "py_getitem v key = Inl TypeError"

fun py_first :: "json \<Rightarrow> py_exception + json" where
  "py_first (JList []) = Inl IndexError"
| "py_first (JList (x # xs)) = Inr x"
| "py_first (JStr s) = (case utf8_chars s of [] \<Rightarrow> Inl IndexError | c # cs \<Rightarrow> Inr (JStr c))"
| "py_first (JObj kvs) = Inl KeyError"
| "py_first v = Inl TypeError"

fun json_len :: "json \<Rightarrow> py_exception + nat" where
  "json_len (JList xs) = Inr (length xs)"
| "json_len (JObj kvs) = Inr (length kvs)"
| "json_len (JStr s) = Inr (py_len s)"
| "json_len v = Inl TypeError"

text \<open>\<open>key in obj\<close>.\<close>

fun py_contains :: "pystr \<Rightarrow> json \<Rightarrow> py_exception + bool" where
  "py_contains key (JObj kvs) = Inr (key \<in> fst ` set kvs)"
| "py_contains key (JList xs) = Inr (JStr key \<in> set xs)"
| "py_contains key (JStr s) = Inr (py_in key s)"
| "py_contains key v = Inl TypeError"

text \<open>The body of the \<open>try\<close> of \<open>_make_request\<close>; \<open>JNull\<close> is Python's \<open>None\<close>, also the
  value when the \<open>if\<close> fails.\<close>

definition chat_content :: "(py_exception + json_response) \<Rightarrow> py_exception + json" where
  "chat_content reply =
     (case reply of
        Inl e \<Rightarrow> Inl e
      | Inr resp \<Rightarrow>
          (case json_raise_for_status resp of
             Inl e \<Rightarrow> Inl e
           | Inr _ \<Rightarrow>
               (case json_body resp of
                  Inl e \<Rightarrow> Inl e
                | Inr data \<Rightarrow>
                    (case py_contains ''choices'' data of
                       Inl e \<Rightarrow> Inl e
                     | Inr False \<Rightarrow> Inr JNull
                     | Inr True \<Rightarrow>
                         (case py_getitem data ''choices'' of
                            Inl e \<Rightarrow> Inl e
                          | Inr choices \<Rightarrow>
                              (case json_len choices of
                                 Inl e \<Rightarrow> Inl e
                               | Inr n \<Rightarrow>
                                   if n > 0 then
                                     (case py_first choices of
                                        Inl e \<Rightarrow> Inl e
                                      | Inr choice \<Rightarrow>
                                          (case py_getitem choice ''message'' of
                                             Inl e \<Rightarrow> Inl e
                                           | Inr msg \<Rightarrow> py_getitem msg ''content''))
                                   else Inr JNull))))))"

text \<open>\<open>_make_request\<close>: any exception is printed and gives \<open>None\<close>.\<close>

definition make_request :: "(py_exception + json_response) \<Rightarrow> json" where
  "make_request reply = (case chat_content reply of Inl e \<Rightarrow> JNull | Inr v \<Rightarrow> v)"

text \<open>
  \<open>re.search(r'\[.*?\]', response)\<close>: the leftmost \<open>[\<close> that is followed, before the end
  of its line, by a \<open>]\<close>; the match ends at the first such \<open>]\<close>.
\<close>

fun search_array :: "pystr \<Rightarrow> pystr option" where
  "search_array [] = None"
| "search_array (c # cs) =
     (if c = CHR ''['' \<and> CHR '']'' \<in> set cs \<and> CHR 0x0A \<notin> set (before_first CHR '']'' cs)
      then Some (c # before_first CHR '']'' cs @ '']'')
      else search_array cs)"

text \<open>\<open>extract_claims\<close>; \<open>json.loads\<close> is a parameter.\<close>

definition local_extract_claims ::
  "(pystr \<Rightarrow> py_exception + json) \<Rightarrow> (py_exception + json_response) \<Rightarrow> json list" where
  "local_extract_claims json_loads reply =
     (case make_request reply of
        JStr response \<Rightarrow>
          (case search_array response of
             None \<Rightarrow> []
           | Some m \<Rightarrow>
               (case json_loads m of
                  Inr (JList claims) \<Rightarrow> claims
                | Inr v \<Rightarrow> []
                | Inl e \<Rightarrow> []))
      | v \<Rightarrow> [])"

text \<open>\<open>optimize_claim\<close> and \<open>get_wiki_article_name\<close>: \<open>response if response else claim\<close>.\<close>

definition local_optimize_claim :: "(py_exception + json_response) \<Rightarrow> pystr \<Rightarrow> json" where
  "local_optimize_claim reply claim =
     (let response = make_request reply in if py_truthy response then response else JStr claim)"

definition local_get_wiki_article_name :: "(py_exception + json_response) \<Rightarrow> pystr \<Rightarrow> json" where
  "local_get_wiki_article_name reply claim =
     (let response = make_request reply in if py_truthy response then response else JStr claim)"

text \<open>The text after the first occurrence of \<open>sub\<close>, when there is one.\<close>

fun after_sub :: "pystr \<Rightarrow> pystr \<Rightarrow> pystr option" where
  "after_sub sub [] = (if sub = [] then Some [] else None)"
| "after_sub sub (x # xs) =
     (if prefix sub (x # xs) then Some (drop (length sub) (x # xs)) else after_sub sub xs)"

text \<open>
  \<open>re.search(r'\{[^}]*"label"[^}]*"evidence"[^}]*\}', response)\<close>: the leftmost \<open>{\<close> whose
  text up to the next \<open>}\<close> holds \<open>"label"\<close> and, after it, \<open>"evidence"\<close>; the match runs
  to that \<open>}\<close>.
\<close>

fun search_verdict_object :: "pystr \<Rightarrow> pystr option" where
  \<open>search_verdict_object [] = None\<close>
| \<open>search_verdict_object (c # cs) =
     (if c = CHR ''{'' \<and> CHR ''}'' \<in> set cs \<and>
         (case after_sub ''"label"'' (before_first CHR ''}'' cs) of
            None \<Rightarrow> False
          | Some r \<Rightarrow> py_in ''"evidence"'' r)
      then Some (c # before_first CHR ''}'' cs @ ''}'')
      else search_verdict_object cs)\<close>

text \<open>
  \<open>re.search(r'"evidence":\s*"([^"]*)"', response)\<close>, its group 1: after the leftmost
  \<open>"evidence":\<close> that is followed by optional whitespace and a quoted text, that text.
\<close>

fun search_evidence :: "pystr \<Rightarrow> pystr option" where
  \<open>search_evidence [] = None\<close>
| \<open>search_evidence (c # cs) =
     (if prefix ''"evidence":'' (c # cs) then
        (case py_lstrip (drop (length ''"evidence":'') (c # cs)) of
           q # r \<Rightarrow>
             if q = CHR 0x22 \<and> CHR 0x22 \<in> set r then Some (before_first CHR 0x22 r)
             else search_evidence cs
         | [] \<Rightarrow> search_evidence cs)
      else search_evidence cs)\<close>

text \<open>\<open>response.lower()\<close>, as far as the search for \<open>true\<close> can tell: no character outside
  ASCII has a lower case containing one of the letters of \<open>true\<close>.\<close>

definition py_lower :: "pystr \<Rightarrow> pystr" where
  "py_lower s = map ascii_lower s"

text \<open>The fallback of \<open>factcheck_claim\<close> on a string.\<close>

definition fallback_verdict :: "pystr \<Rightarrow> json" where
  "fallback_verdict response =
     (let label = (if py_in ''true'' (py_lower response) then ''True'' else ''False'');
          evidence = (case search_evidence response of
                        Some g \<Rightarrow> g
                      | None \<Rightarrow> py_prefix 200 response)
      in JObj [(''label'', JStr label), (''evidence'', JStr evidence)])"

text \<open>
  \<open>factcheck_claim\<close> from the reply on: \<open>None\<close> for a falsy response; the parsed object when
  the pattern matches and \<open>json.loads\<close> accepts the match; the fallback otherwise. A
  response that is not a string fails both \<open>try\<close> bodies, and the last handler slices
  it: a list gives a result, anything else raises there.
\<close>

definition factcheck_claim ::
  "(pystr \<Rightarrow> py_exception + json) \<Rightarrow> (py_exception + json_response) \<Rightarrow> py_exception + json" where
  "factcheck_claim json_loads reply =
     (let response = make_request reply in
      if \<not> py_truthy response then Inr JNull
      else
        (case response of
           JStr s \<Rightarrow>
             (case search_verdict_object s of
                None \<Rightarrow> Inr (fallback_verdict s)
              | Some m \<Rightarrow>
                  (case json_loads m of
                     Inr v \<Rightarrow> Inr v
                   | Inl e \<Rightarrow> Inr (fallback_verdict s)))
         | JList xs \<Rightarrow> Inr (JObj [(''label'', JStr ''False''), (''evidence'', JList (take 200 xs))])
         | v \<Rightarrow> Inl TypeError))"

subsection \<open>The local judge (utils/local_factcheck_full.py)\<close>

text \<open>The constructor \<open>ClaimResult(label=..., evidence=...)\<close>: pydantic accepts strings for
  the two \<open>str\<close> fields and raises \<open>ValidationError\<close> for any other JSON value.\<close>

fun ClaimResult :: "json \<Rightarrow> json \<Rightarrow> py_exception + claim_result" where
  "ClaimResult (JStr l) (JStr e) = Inr \<lparr>label = l, evidence = e\<rparr>"
| "ClaimResult l e = Inl ValidationError"

text \<open>The \<open>except\<close> handler of \<open>find_answer_in_article\<close>: it builds a second
  \<open>ClaimResult\<close>, outside any \<open>try\<close>.\<close>

definition claim_result_handler :: "json \<Rightarrow> py_exception + claim_result option" where
  "claim_result_handler result =
     (case py_get result ''evidence'' (JStr []) of
        Inl e \<Rightarrow> Inl e
      | Inr ev \<Rightarrow>
          (case ClaimResult (JStr ''False'') ev of
             Inl e \<Rightarrow> Inl e
           | Inr res \<Rightarrow> Inr (Some res)))"

definition local_find_answer_in_article ::
  "(pystr \<Rightarrow> py_exception + json) \<Rightarrow> (py_exception + json_response) \<Rightarrow>
   py_exception + claim_result option" where
  "local_find_answer_in_article json_loads reply =
     (case factcheck_claim json_loads reply of
        Inl e \<Rightarrow> Inl e
      | Inr result \<Rightarrow>
          if py_truthy result then
            (case py_getitem result ''label'' of
               Inl e \<Rightarrow> claim_result_handler result
             | Inr l \<Rightarrow>
                 (case py_getitem result ''evidence'' of
                    Inl e \<Rightarrow> claim_result_handler result
                  | Inr ev \<Rightarrow>
                      (case ClaimResult l ev of
                         Inl e \<Rightarrow> claim_result_handler result
                       | Inr res \<Rightarrow> Inr (Some res))))
          else Inr None)"

section \<open>The orchestrator (main_local.py)\<close>












section \<open>Evaluation on concrete inputs\<close>

text \<open>The defining equations needed to run the string and URL functions on literals.\<close>

lemmas str_defs = is_ascii_def in_range_def ascii_letters_def digits_def py_split_def
  before_first_def after_first_def seq_len_def second_ok_def is_cont_def cont_run_def
  replacement_char_def always_safe_def hex_upper_def byte_quoter_def quote_from_bytes_def
  quote_def is_hexdig_def hex_value_def unquote_item_def unquote_impl_def unquote_def
  char_of_def bit_Suc_0_iff

lemmas url_defs = c0_control_or_space_def unsafe_url_byte_def scheme_chars_def ascii_lower_def
  split_scheme_def netloc_delim_def splitnetloc_def split_once_def urlsplit_def uses_params_def
  splitparams_def urlparse_def extract_title_from_wiki_url_def

section \<open>Stripping\<close>

lemma find_never: "find (\<lambda>w. False) pats = None"
  by (induction pats) auto

lemma front_len_Nil: "front_len pats [] = 0"
  by (simp add: front_len_def find_never)

lemma strip_front_Nil: "strip_front pats [] = []"
  by (subst strip_front.simps) (simp add: front_len_Nil)

lemma py_strip_Nil: "py_strip [] = []"
  by (simp add: py_strip_def py_lstrip_def py_rstrip_def strip_front_Nil)

lemma py_strip_nonempty: "py_strip s \<noteq> [] \<Longrightarrow> s \<noteq> []"
  using py_strip_Nil by auto

section \<open>Tier ordering of the scraper\<close>

lemma try_plain_success:
  assumes "net h (plain_request title) = Inr r" and "status_code r = 200"
    and "py_strip (resp_text r) \<noteq> []"
  shows "try_tier (wiki_rest_plain_text net title) h =
           (Some (resp_text r), h @ [Http_get (plain_request title)])"
  using assms py_strip_nonempty [OF assms(3)]
  by (simp add: try_tier_def wiki_rest_plain_text_def session_get_def)

text \<open>
  Claim C1. Let title extraction give a title for the URL, a title the scraper's guard
  \<open>if title:\<close> accepts (it is not the empty string). If the plain-text REST endpoint
  answers the request for that title with status 200 and a body that is not empty after
  \<open>strip()\<close>, then \<open>scrape_wikipedia_content\<close> returns exactly that body, untrimmed, and
  the request to the plain-text endpoint is the only thing it did: neither the
  mobile-HTML tier nor the generic tier sent a request.
\<close>

theorem plain_text_short_circuit:
  assumes "extract_title_from_wiki_url lib url = Some title" and "title \<noteq> []"
    and "net h (plain_request title) = Inr r" and "status_code r = 200"
    and "py_strip (resp_text r) \<noteq> []"
  shows "scrape_wikipedia_content lib soup net url h =
           (Inr (Some (resp_text r)), h @ [Http_get (plain_request title)])"
  using assms try_plain_success [of net h title r]
  by (simp add: scrape_wikipedia_content_def rest_tiers_def)

theorem plain_text_short_circuit_witness:
  "scrape_wikipedia_content
     \<lparr>bracketed_host_invalid = (\<lambda>n. True), nfkc_netloc_invalid = (\<lambda>n. True)\<rparr>
     (\<lambda>container removed blocks html. Inr [])
     (\<lambda>h rq. Inr \<lparr>status_code = 200, resp_text = ''  Ada Lovelace was a mathematician. ''\<rparr>)
     ''https://en.wikipedia.org/wiki/Ada_Lovelace'' [] =
   (Inr (Some ''  Ada Lovelace was a mathematician. ''), [Http_get (plain_request ''Ada_Lovelace'')])"
proof -
  let ?r = "\<lparr>status_code = 200, resp_text = ''  Ada Lovelace was a mathematician. ''\<rparr>"
  have t: "extract_title_from_wiki_url
             \<lparr>bracketed_host_invalid = (\<lambda>n. True), nfkc_netloc_invalid = (\<lambda>n. True)\<rparr>
             ''https://en.wikipedia.org/wiki/Ada_Lovelace'' = Some ''Ada_Lovelace''"
    by (simp add: str_defs url_defs)
  have s: "py_strip (resp_text ?r) \<noteq> []"
    by code_simp
  show ?thesis
    using t s plain_text_short_circuit [of _ _ "''Ada_Lovelace''" "\<lambda>h rq. Inr ?r" "[]" ?r]
    by simp
qed

section \<open>Title extraction\<close>

lemma split_aux_no_sep: "sep \<notin> set s \<Longrightarrow> split_aux sep s = (s, [])"
  by (induction s) auto

lemma split_aux_append_sep:
  "sep \<notin> set s \<Longrightarrow>
   split_aux sep (s @ sep # r) = (s, fst (split_aux sep r) # snd (split_aux sep r))"
  by (induction s) (auto split: prod.splits)

lemma split_aux_empty: "split_aux sep s = ([], []) \<Longrightarrow> s = []"
  by (cases s) (auto split: prod.splits if_splits)

lemma py_split_wiki_path:
  assumes "CHR ''/'' \<notin> set seg" and "rest = [] \<or> hd rest = CHR ''/''"
  shows "\<exists>more. py_split CHR ''/'' (''/wiki/'' @ seg @ rest) = [] # ''wiki'' # seg # more"
proof (cases rest)
  case Nil
  then show ?thesis
    using assms(1) by (simp add: py_split_def split_aux_no_sep)
next
  case (Cons c r)
  then have "rest = CHR ''/'' # r"
    using assms(2) by simp
  then show ?thesis
    using assms(1) by (simp add: py_split_def split_aux_append_sep split: prod.splits)
qed

lemma unquote_item_nonempty: "unquote_item item \<noteq> []"
  by (simp add: unquote_item_def split: list.splits)

lemma unquote_impl_nonempty: "s \<noteq> [] \<Longrightarrow> unquote_impl s \<noteq> []"
proof -
  assume s: "s \<noteq> []"
  obtain b0 bs where sp: "split_aux CHR ''%'' s = (b0, bs)"
    by (cases "split_aux CHR ''%'' s")
  show ?thesis
  proof (cases "b0 = []")
    case False
    then show ?thesis by (simp add: unquote_impl_def sp)
  next
    case True
    then have "bs \<noteq> []"
      using sp s split_aux_empty by blast
    then show ?thesis
      by (cases bs) (simp_all add: unquote_impl_def sp unquote_item_nonempty)
  qed
qed

lemma decode_replace_nonempty: "s \<noteq> [] \<Longrightarrow> decode_replace s \<noteq> []"
  by (cases s) (simp_all add: Let_def replacement_char_def)

lemma unquoted_parts_nonempty: "run \<noteq> [] \<or> s \<noteq> [] \<Longrightarrow> unquoted_parts run s \<noteq> []"
  by (induction s arbitrary: run) (auto simp: decode_replace_nonempty unquote_impl_nonempty)

lemma unquote_nonempty: "s \<noteq> [] \<Longrightarrow> unquote s \<noteq> []"
  by (simp add: unquote_def unquoted_parts_nonempty)

section \<open>What the scraper requests\<close>

lemma try_plain_history:
  "snd (try_tier (wiki_rest_plain_text net title) h) = h @ [Http_get (plain_request title)]"
  by (simp add: try_tier_def wiki_rest_plain_text_def session_get_def
      split: sum.splits option.splits)

lemma rest_tiers_starts_plain:
  "prefix (h @ [Http_get (plain_request title)]) (snd (rest_tiers soup net title h))"
proof -
  obtain r h1 where p: "try_tier (wiki_rest_plain_text net title) h = (r, h1)"
    by (cases "try_tier (wiki_rest_plain_text net title) h")
  then have h1: "h1 = h @ [Http_get (plain_request title)]"
    using try_plain_history [of net title h] by simp
  have ext: "prefix h1 (snd (try_tier (wiki_rest_mobile_html soup net title) h1))"
    by (simp add: try_tier_def wiki_rest_mobile_html_def session_get_def
        split: sum.splits option.splits)
  show ?thesis
  proof (cases r)
    case None
    obtain r2 h2 where m: "try_tier (wiki_rest_mobile_html soup net title) h1 = (r2, h2)"
      by (cases "try_tier (wiki_rest_mobile_html soup net title) h1")
    with ext have "prefix h1 h2" by simp
    then have "prefix h1 (h2 @ [Sleep])"
      by (simp add: prefix_prefix)
    with \<open>prefix h1 h2\<close> show ?thesis
      using p None m h1 by (cases r2) (simp_all add: rest_tiers_def)
  next
    case (Some content)
    then show ?thesis
      using p h1 by (simp add: rest_tiers_def)
  qed
qed

lemma generic_history:
  "snd (generic_html_scrape soup net url h) = h @ [Http_get (generic_request url)]"
  by (simp add: generic_html_scrape_def session_get_def split: sum.splits)

lemma requests_of_append: "requests_of (h @ h') = requests_of h @ requests_of h'"
  by (induction h rule: requests_of.induct) auto

text \<open>
  Claim C2. When title extraction fails for a URL (it returns \<open>None\<close>: the parse raised,
  the network location does not contain the reference domain, or the path is not
  \<open>/wiki/<title>\<close>), \<open>scrape_wikipedia_content\<close> is the generic tier inside its \<open>try\<close>, and
  the only request it sends is the generic request for the URL itself: no request goes
  to the plain-text or the mobile-HTML REST endpoint.
\<close>

theorem no_title_generic_only:
  assumes "extract_title_from_wiki_url lib url = None"
  shows "scrape_wikipedia_content lib soup net url h =
           (case generic_html_scrape soup net url h of
              (Inr res, h') \<Rightarrow> (Inr res, h')
            | (Inl e, h') \<Rightarrow> (Inr None, h' @ [Print_error])) \<and>
         requests_of (snd (scrape_wikipedia_content lib soup net url h)) =
           requests_of h @ [generic_request url]"
proof -
  have eq: "scrape_wikipedia_content lib soup net url h =
           (case generic_html_scrape soup net url h of
              (Inr res, h') \<Rightarrow> (Inr res, h')
            | (Inl e, h') \<Rightarrow> (Inr None, h' @ [Print_error]))"
    using assms by (simp add: scrape_wikipedia_content_def)
  obtain r h' where g: "generic_html_scrape soup net url h = (r, h')"
    by (cases "generic_html_scrape soup net url h")
  then have h': "h' = h @ [Http_get (generic_request url)]"
    using generic_history [of soup net url h] by simp
  show ?thesis
    using eq g h' by (cases r) (simp_all add: requests_of_append)
qed

theorem no_title_generic_only_witness:
  "scrape_wikipedia_content
     \<lparr>bracketed_host_invalid = (\<lambda>n. True), nfkc_netloc_invalid = (\<lambda>n. True)\<rparr>
     (\<lambda>container removed blocks html. Inr [''A paragraph of the page.''])
     (\<lambda>h rq. Inr \<lparr>status_code = 200, resp_text = ''<p>A paragraph of the page.</p>''\<rparr>)
     ''https://example.com/wiki/Page'' [] =
   (Inr (Some ''A paragraph of the page.''),
    [Http_get (generic_request ''https://example.com/wiki/Page'')])"
proof -
  have t: "extract_title_from_wiki_url
             \<lparr>bracketed_host_invalid = (\<lambda>n. True), nfkc_netloc_invalid = (\<lambda>n. True)\<rparr>
             ''https://example.com/wiki/Page'' = None"
    by (simp add: str_defs url_defs)
  show ?thesis
    using no_title_generic_only [OF t]
    by (simp add: generic_html_scrape_def session_get_def raise_for_status_def join_blocks_def
        py_len_def is_cont_def in_range_def)
qed

lemma scrape_starts_plain:
  assumes "extract_title_from_wiki_url lib url = Some title" and "title \<noteq> []"
  shows "prefix (h @ [Http_get (plain_request title)])
           (snd (scrape_wikipedia_content lib soup net url h))"
proof -
  obtain r h1 where rt: "rest_tiers soup net title h = (r, h1)"
    by (cases "rest_tiers soup net title h")
  then have pre: "prefix (h @ [Http_get (plain_request title)]) h1"
    using rest_tiers_starts_plain [of h title soup net] by simp
  show ?thesis
  proof (cases r)
    case (Some content)
    then show ?thesis
      using assms rt pre by (simp add: scrape_wikipedia_content_def)
  next
    case None
    obtain g h2 where gs: "generic_html_scrape soup net url h1 = (g, h2)"
      by (cases "generic_html_scrape soup net url h1")
    then have "h2 = h1 @ [Http_get (generic_request url)]"
      using generic_history [of soup net url h1] by simp
    then have "prefix (h @ [Http_get (plain_request title)]) h2"
      and "prefix (h @ [Http_get (plain_request title)]) (h2 @ [Print_error])"
      using pre by (simp_all add: prefix_prefix)
    then show ?thesis
      using assms rt None gs by (cases g) (simp_all add: scrape_wikipedia_content_def)
  qed
qed

lemma py_join_nonempty: "x \<noteq> [] \<Longrightarrow> py_join sep (x # xs) \<noteq> []"
  by (cases xs) simp_all

lemma join_blocks_nonempty:
  assumes "join_blocks texts = Some joined"
  shows "joined \<noteq> []"
proof -
  define blocks where "blocks = filter (\<lambda>t. t \<noteq> [] \<and> py_len t > 10) texts"
  have j: "blocks \<noteq> []" "joined = py_join [CHR 0x0A, CHR 0x0A] blocks"
    using assms by (auto simp add: join_blocks_def blocks_def Let_def split: if_splits)
  then obtain b bs where b: "blocks = b # bs"
    by (cases blocks) auto
  then have "b \<in> set blocks"
    by simp
  then have "b \<noteq> []"
    unfolding blocks_def by simp
  then show ?thesis
    using j(2) b py_join_nonempty [of b] by simp
qed

lemma try_plain_failure:
  assumes "\<not> (\<exists>r. net h (plain_request title) = Inr r \<and> status_code r = 200 \<and>
                  py_strip (resp_text r) \<noteq> [])"
  shows "try_tier (wiki_rest_plain_text net title) h = (None, h @ [Http_get (plain_request title)])"
proof (cases "net h (plain_request title)")
  case (Inl e)
  then show ?thesis
    by (simp add: try_tier_def wiki_rest_plain_text_def session_get_def)
next
  case (Inr r)
  then have "\<not> (status_code r = 200 \<and> py_strip (resp_text r) \<noteq> [])"
    using assms by blast
  then show ?thesis
    using Inr by (auto simp add: try_tier_def wiki_rest_plain_text_def session_get_def)
qed

lemma try_mobile_success:
  assumes "net h (mobile_request title) = Inr r" and "status_code r = 200"
    and "soup None REMOVE_SELECTORS block_selector (resp_text r) = Inr texts"
    and "join_blocks texts = Some joined"
  shows "try_tier (wiki_rest_mobile_html soup net title) h =
           (Some joined, h @ [Http_get (mobile_request title)])"
  using assms join_blocks_nonempty [OF assms(4)]
  by (simp add: try_tier_def wiki_rest_mobile_html_def session_get_def)

lemma try_mobile_failure:
  assumes "\<not> (\<exists>r texts joined. net h (mobile_request title) = Inr r \<and> status_code r = 200 \<and>
                  soup None REMOVE_SELECTORS block_selector (resp_text r) = Inr texts \<and>
                  join_blocks texts = Some joined)"
  shows "try_tier (wiki_rest_mobile_html soup net title) h =
           (None, h @ [Http_get (mobile_request title)])"
proof (cases "net h (mobile_request title)")
  case (Inl e)
  then show ?thesis
    by (simp add: try_tier_def wiki_rest_mobile_html_def session_get_def)
next
  case (Inr r)
  show ?thesis
  proof (cases "status_code r = 200")
    case False
    then show ?thesis
      using Inr by (simp add: try_tier_def wiki_rest_mobile_html_def session_get_def)
  next
    case True
    show ?thesis
    proof (cases "soup None REMOVE_SELECTORS block_selector (resp_text r)")
      case (Inl x)
      then show ?thesis
        using Inr True by (simp add: try_tier_def wiki_rest_mobile_html_def session_get_def)
    next
      case texts: (Inr texts)
      then have "join_blocks texts = None"
        using assms Inr True by (cases "join_blocks texts") auto
      then show ?thesis
        using Inr True texts by (simp add: try_tier_def wiki_rest_mobile_html_def session_get_def)
    qed
  qed
qed

lemma scrape_with_title:
  assumes "extract_title_from_wiki_url lib url = Some title" and "title \<noteq> []"
  shows "scrape_wikipedia_content lib soup net url h =
           (case rest_tiers soup net title h of
              (Some joined, h1) \<Rightarrow> (Inr (Some joined), h1)
            | (None, h1) \<Rightarrow>
                (case generic_html_scrape soup net url h1 of
                   (Inr res, h2) \<Rightarrow> (Inr res, h2)
                 | (Inl e, h2) \<Rightarrow> (Inr None, h2 @ [Print_error])))"
  using assms by (simp add: scrape_wikipedia_content_def)

lemma rest_tiers_mobile:
  assumes "\<not> (\<exists>r. net h (plain_request title) = Inr r \<and> status_code r = 200 \<and>
                py_strip (resp_text r) \<noteq> [])"
    and "net (h @ [Http_get (plain_request title)]) (mobile_request title) = Inr r"
    and "status_code r = 200"
    and "soup None REMOVE_SELECTORS block_selector (resp_text r) = Inr texts"
    and "join_blocks texts = Some joined"
  shows "rest_tiers soup net title h =
           (Some joined, h @ [Http_get (plain_request title), Http_get (mobile_request title)])"
  using try_plain_failure [of net h title]
    try_mobile_success [of net "h @ [Http_get (plain_request title)]" title r soup texts joined]
    assms
  by (simp add: rest_tiers_def)

lemma rest_tiers_none:
  assumes "\<not> (\<exists>r. net h (plain_request title) = Inr r \<and> status_code r = 200 \<and>
                py_strip (resp_text r) \<noteq> [])"
    and "\<not> (\<exists>r texts joined. net (h @ [Http_get (plain_request title)]) (mobile_request title) = Inr r \<and>
                status_code r = 200 \<and>
                soup None REMOVE_SELECTORS block_selector (resp_text r) = Inr texts \<and>
                join_blocks texts = Some joined)"
  shows "rest_tiers soup net title h =
           (None, h @ [Http_get (plain_request title), Http_get (mobile_request title), Sleep])"
  using try_plain_failure [of net h title]
    try_mobile_failure [of net "h @ [Http_get (plain_request title)]" title soup] assms
  by (simp add: rest_tiers_def)

lemma scrape_generic_history:
  "prefix (h @ [Http_get (generic_request url)])
     (snd (case generic_html_scrape soup net url h of
             (Inr res, h2) \<Rightarrow> (Inr res, h2)
           | (Inl e, h2) \<Rightarrow> (Inr (None :: pystr option), h2 @ [Print_error])))"
proof -
  obtain g h2 where gs: "generic_html_scrape soup net url h = (g, h2)"
    by (cases "generic_html_scrape soup net url h")
  then have "h2 = h @ [Http_get (generic_request url)]"
    using generic_history [of soup net url h] by simp
  then show ?thesis
    using gs by (cases g) simp_all
qed

text \<open>
  Claim C10. The host test of title extraction is the substring test
  \<open>"wikipedia.org" in parsed.netloc\<close>. For every URL that parses, whose network location
  merely contains \<open>wikipedia.org\<close> (as \<open>fakewikipedia.org\<close> does) and whose path is
  \<open>/wiki/<segment>\<close> with a non-empty segment (possibly followed by further segments),
  title extraction succeeds with the decoded segment, and retrieval goes through the
  Wikipedia REST tiers for that title. It requests the plain-text endpoint and returns
  its text when that is a 200 with a body that is not blank. Otherwise it requests the
  mobile-HTML endpoint next, and returns the joined blocks of a 200 answer when there
  are any. Otherwise, after both REST requests and the pause, it falls back to the
  generic tier for the URL.
\<close>

theorem substring_host_accepted:
  assumes "urlparse lib url = Inr parsed"
    and "py_in ''wikipedia.org'' (netloc parsed)"
    and "path parsed = ''/wiki/'' @ seg @ rest"
    and "seg \<noteq> []" and "CHR ''/'' \<notin> set seg" and "rest = [] \<or> hd rest = CHR ''/''"
  shows "extract_title_from_wiki_url lib url = Some (unquote seg) \<and>
     (net h (plain_request (unquote seg)) = Inr r \<and> status_code r = 200 \<and>
      py_strip (resp_text r) \<noteq> [] \<longrightarrow>
        scrape_wikipedia_content lib soup net url h =
          (Inr (Some (resp_text r)), h @ [Http_get (plain_request (unquote seg))])) \<and>
     (\<not> (\<exists>r. net h (plain_request (unquote seg)) = Inr r \<and> status_code r = 200 \<and>
                      py_strip (resp_text r) \<noteq> []) \<longrightarrow>
        prefix (h @ [Http_get (plain_request (unquote seg)),
                     Http_get (mobile_request (unquote seg))])
          (snd (scrape_wikipedia_content lib soup net url h))) \<and>
     (\<not> (\<exists>r. net h (plain_request (unquote seg)) = Inr r \<and> status_code r = 200 \<and>
                      py_strip (resp_text r) \<noteq> []) \<and>
      net (h @ [Http_get (plain_request (unquote seg))]) (mobile_request (unquote seg)) = Inr r' \<and>
      status_code r' = 200 \<and>
      soup None REMOVE_SELECTORS block_selector (resp_text r') = Inr texts \<and>
      join_blocks texts = Some joined \<longrightarrow>
        scrape_wikipedia_content lib soup net url h =
          (Inr (Some joined), h @ [Http_get (plain_request (unquote seg)),
                                Http_get (mobile_request (unquote seg))])) \<and>
     (\<not> (\<exists>r. net h (plain_request (unquote seg)) = Inr r \<and> status_code r = 200 \<and>
                      py_strip (resp_text r) \<noteq> []) \<and>
      \<not> (\<exists>r texts joined. net (h @ [Http_get (plain_request (unquote seg))]) (mobile_request (unquote seg)) = Inr r \<and>
                      status_code r = 200 \<and>
                      soup None REMOVE_SELECTORS block_selector (resp_text r) = Inr texts \<and>
                      join_blocks texts = Some joined) \<longrightarrow>
        scrape_wikipedia_content lib soup net url h =
          (case generic_html_scrape soup net url
                  (h @ [Http_get (plain_request (unquote seg)),
                        Http_get (mobile_request (unquote seg)), Sleep]) of
             (Inr res, h') \<Rightarrow> (Inr res, h')
           | (Inl e, h') \<Rightarrow> (Inr None, h' @ [Print_error])) \<and>
        prefix (h @ [Http_get (plain_request (unquote seg)),
                     Http_get (mobile_request (unquote seg)), Sleep,
                     Http_get (generic_request url)])
          (snd (scrape_wikipedia_content lib soup net url h)))"
proof -
  obtain more where parts: "py_split CHR ''/'' (path parsed) = [] # ''wiki'' # seg # more"
    using py_split_wiki_path [OF assms(5,6)] assms(3) by auto
  have t: "extract_title_from_wiki_url lib url = Some (unquote seg)"
    using assms(1,2) parts by (simp add: extract_title_from_wiki_url_def)
  have ne: "unquote seg \<noteq> []"
    by (rule unquote_nonempty [OF assms(4)])
  note sc = scrape_with_title [OF t ne, of soup net h]
  have first: "net h (plain_request (unquote seg)) = Inr r \<and> status_code r = 200 \<and>
      py_strip (resp_text r) \<noteq> [] \<longrightarrow>
        scrape_wikipedia_content lib soup net url h =
          (Inr (Some (resp_text r)), h @ [Http_get (plain_request (unquote seg))])"
    using try_plain_success [of net h "unquote seg" r] sc by (simp add: rest_tiers_def)
  have second: "scrape_wikipedia_content lib soup net url h =
          (Inr (Some joined), h @ [Http_get (plain_request (unquote seg)),
                                Http_get (mobile_request (unquote seg))])"
    if "\<not> (\<exists>r. net h (plain_request (unquote seg)) = Inr r \<and> status_code r = 200 \<and>
                      py_strip (resp_text r) \<noteq> [])"
      and "net (h @ [Http_get (plain_request (unquote seg))]) (mobile_request (unquote seg)) = Inr r'"
      and "status_code r' = 200"
      and "soup None REMOVE_SELECTORS block_selector (resp_text r') = Inr texts"
      and "join_blocks texts = Some joined" for r' texts joined
    using rest_tiers_mobile [of net h "unquote seg" r' soup texts joined] that sc by simp
  have third: "scrape_wikipedia_content lib soup net url h =
          (case generic_html_scrape soup net url
                  (h @ [Http_get (plain_request (unquote seg)),
                        Http_get (mobile_request (unquote seg)), Sleep]) of
             (Inr res, h') \<Rightarrow> (Inr res, h')
           | (Inl e, h') \<Rightarrow> (Inr None, h' @ [Print_error]))"
    if "\<not> (\<exists>r. net h (plain_request (unquote seg)) = Inr r \<and> status_code r = 200 \<and>
                      py_strip (resp_text r) \<noteq> [])"
      and "\<not> (\<exists>r texts joined. net (h @ [Http_get (plain_request (unquote seg))]) (mobile_request (unquote seg)) = Inr r \<and>
                      status_code r = 200 \<and>
                      soup None REMOVE_SELECTORS block_selector (resp_text r) = Inr texts \<and>
                      join_blocks texts = Some joined)"
    using rest_tiers_none [of net h "unquote seg" soup] that sc by simp
  have third_history: "prefix (h @ [Http_get (plain_request (unquote seg)),
                     Http_get (mobile_request (unquote seg)), Sleep,
                     Http_get (generic_request url)])
          (snd (scrape_wikipedia_content lib soup net url h))"
    if "\<not> (\<exists>r. net h (plain_request (unquote seg)) = Inr r \<and> status_code r = 200 \<and>
                      py_strip (resp_text r) \<noteq> [])"
      and "\<not> (\<exists>r texts joined. net (h @ [Http_get (plain_request (unquote seg))]) (mobile_request (unquote seg)) = Inr r \<and>
                      status_code r = 200 \<and>
                      soup None REMOVE_SELECTORS block_selector (resp_text r) = Inr texts \<and>
                      join_blocks texts = Some joined)"
    using scrape_generic_history [of "h @ [Http_get (plain_request (unquote seg)),
        Http_get (mobile_request (unquote seg)), Sleep]" url soup net]
    by (simp add: third [OF that])
  have both: "prefix (h @ [Http_get (plain_request (unquote seg)),
                     Http_get (mobile_request (unquote seg))])
          (snd (scrape_wikipedia_content lib soup net url h))"
    if p: "\<not> (\<exists>r. net h (plain_request (unquote seg)) = Inr r \<and> status_code r = 200 \<and>
                      py_strip (resp_text r) \<noteq> [])"
  proof (cases "(\<exists>r texts joined. net (h @ [Http_get (plain_request (unquote seg))]) (mobile_request (unquote seg)) = Inr r \<and>
                      status_code r = 200 \<and>
                      soup None REMOVE_SELECTORS block_selector (resp_text r) = Inr texts \<and>
                      join_blocks texts = Some joined)")
    case True
    then obtain r' texts joined where
      "net (h @ [Http_get (plain_request (unquote seg))]) (mobile_request (unquote seg)) = Inr r'"
      "status_code r' = 200"
      "soup None REMOVE_SELECTORS block_selector (resp_text r') = Inr texts"
      "join_blocks texts = Some joined"
      by blast
    then show ?thesis
      using second [OF p] by simp
  next
    case False
    have "prefix (h @ [Http_get (plain_request (unquote seg)),
                     Http_get (mobile_request (unquote seg))])
        (h @ [Http_get (plain_request (unquote seg)),
              Http_get (mobile_request (unquote seg)), Sleep,
              Http_get (generic_request url)])"
      by simp
    then show ?thesis
      using third_history [OF p False] by (rule prefix_order.trans)
  qed
  show ?thesis
    using t first both second third third_history by blast
qed

text \<open>The theorem at work on a URL of the host \<open>fakewikipedia.org\<close>: with a network that
  answers every request, with one that has no plain text for the title, and with one
  that is down.\<close>

theorem substring_host_accepted_witness:
  "extract_title_from_wiki_url
     \<lparr>bracketed_host_invalid = (\<lambda>n. True), nfkc_netloc_invalid = (\<lambda>n. True)\<rparr>
     ''http://fakewikipedia.org/wiki/Ada%20Lovelace/x'' = Some ''Ada Lovelace'' \<and>
   scrape_wikipedia_content
     \<lparr>bracketed_host_invalid = (\<lambda>n. True), nfkc_netloc_invalid = (\<lambda>n. True)\<rparr>
     (\<lambda>container removed blocks html. Inr [])
     (\<lambda>h rq. Inr \<lparr>status_code = 200, resp_text = ''Ada Lovelace was a mathematician.''\<rparr>)
     ''http://fakewikipedia.org/wiki/Ada%20Lovelace/x'' [] =
   (Inr (Some ''Ada Lovelace was a mathematician.''), [Http_get (plain_request ''Ada Lovelace'')]) \<and>
   scrape_wikipedia_content
     \<lparr>bracketed_host_invalid = (\<lambda>n. True), nfkc_netloc_invalid = (\<lambda>n. True)\<rparr>
     (\<lambda>container removed blocks html. Inr [''Ada Lovelace was a mathematician.''])
     (\<lambda>h rq. if rq = plain_request ''Ada Lovelace''
               then Inr \<lparr>status_code = 404, resp_text = []\<rparr>
               else Inr \<lparr>status_code = 200, resp_text = ''<p>Ada Lovelace was a mathematician.</p>''\<rparr>)
     ''http://fakewikipedia.org/wiki/Ada%20Lovelace/x'' [] =
   (Inr (Some ''Ada Lovelace was a mathematician.''),
    [Http_get (plain_request ''Ada Lovelace''), Http_get (mobile_request ''Ada Lovelace'')]) \<and>
   scrape_wikipedia_content
     \<lparr>bracketed_host_invalid = (\<lambda>n. True), nfkc_netloc_invalid = (\<lambda>n. True)\<rparr>
     (\<lambda>container removed blocks html. Inr [])
     (\<lambda>h rq. Inl ConnectionError)
     ''http://fakewikipedia.org/wiki/Ada%20Lovelace/x'' [] =
   (Inr None,
    [Http_get (plain_request ''Ada Lovelace''), Http_get (mobile_request ''Ada Lovelace''), Sleep,
     Http_get (generic_request ''http://fakewikipedia.org/wiki/Ada%20Lovelace/x''), Print_error])"
proof -
  let ?lib = "\<lparr>bracketed_host_invalid = (\<lambda>n. True), nfkc_netloc_invalid = (\<lambda>n. True)\<rparr>"
  let ?url = "''http://fakewikipedia.org/wiki/Ada%20Lovelace/x''"
  let ?p = "\<lparr>scheme = ''http'', netloc = ''fakewikipedia.org'', path = ''/wiki/Ada%20Lovelace/x'',
             query = [], fragment = [], params = []\<rparr>"
  let ?r = "\<lparr>status_code = 200, resp_text = ''Ada Lovelace was a mathematician.''\<rparr>"
  let ?m = "\<lparr>status_code = 200, resp_text = ''<p>Ada Lovelace was a mathematician.</p>''\<rparr>"
  have u: "urlparse ?lib ?url = Inr ?p"
    by (simp add: str_defs url_defs)
  have n: "py_in ''wikipedia.org'' (netloc ?p)"
    by simp
  have p: "path ?p = ''/wiki/'' @ ''Ada%20Lovelace'' @ ''/x''"
    by simp
  have q: "unquote ''Ada%20Lovelace'' = ''Ada Lovelace''"
    by (simp add: str_defs)
  have s: "py_strip (resp_text ?r) \<noteq> []"
    by code_simp
  have title: "extract_title_from_wiki_url ?lib ?url = Some ''Ada Lovelace''"
    and plain: "scrape_wikipedia_content
     ?lib
     (\<lambda>container removed blocks html. Inr [])
     (\<lambda>h rq. Inr \<lparr>status_code = 200, resp_text = ''Ada Lovelace was a mathematician.''\<rparr>)
     ?url [] =
      (Inr (Some ''Ada Lovelace was a mathematician.''), [Http_get (plain_request ''Ada Lovelace'')])"
    using substring_host_accepted [OF u n p, where h = "[]" and r = ?r
        and soup = "\<lambda>container removed blocks html. Inr []"
        and net = "\<lambda>h rq. Inr \<lparr>status_code = 200, resp_text = ''Ada Lovelace was a mathematician.''\<rparr>"] q s
    by simp_all
  have mobile: "scrape_wikipedia_content
     ?lib
     (\<lambda>container removed blocks html. Inr [''Ada Lovelace was a mathematician.''])
     (\<lambda>h rq. if rq = plain_request ''Ada Lovelace''
               then Inr \<lparr>status_code = 404, resp_text = []\<rparr>
               else Inr \<lparr>status_code = 200, resp_text = ''<p>Ada Lovelace was a mathematician.</p>''\<rparr>)
     ?url [] =
      (Inr (Some ''Ada Lovelace was a mathematician.''),
    [Http_get (plain_request ''Ada Lovelace''), Http_get (mobile_request ''Ada Lovelace'')])"
    using substring_host_accepted [OF u n p, where h = "[]" and r' = ?m
        and texts = "[''Ada Lovelace was a mathematician.'']" and joined = "''Ada Lovelace was a mathematician.''"
        and soup = "\<lambda>container removed blocks html. Inr [''Ada Lovelace was a mathematician.'']"
        and net = "\<lambda>h rq. if rq = plain_request ''Ada Lovelace''
               then Inr \<lparr>status_code = 404, resp_text = []\<rparr>
               else Inr \<lparr>status_code = 200, resp_text = ''<p>Ada Lovelace was a mathematician.</p>''\<rparr>"] q
    by (simp add: plain_request_def mobile_request_def join_blocks_def py_len_def is_cont_def
        in_range_def)
  have down: "scrape_wikipedia_content
     ?lib
     (\<lambda>container removed blocks html. Inr [])
     (\<lambda>h rq. Inl ConnectionError)
     ?url [] =
      (Inr None,
    [Http_get (plain_request ''Ada Lovelace''), Http_get (mobile_request ''Ada Lovelace''), Sleep,
     Http_get (generic_request ''http://fakewikipedia.org/wiki/Ada%20Lovelace/x''), Print_error])"
    using substring_host_accepted [OF u n p, where h = "[]"
        and soup = "\<lambda>container removed blocks html. Inr []"
        and net = "\<lambda>h rq. Inl ConnectionError"] q
    by (simp add: generic_html_scrape_def session_get_def)
  from title plain mobile down show ?thesis
    by (intro conjI)
qed

section \<open>Percent-encoding\<close>

lemma hex_upper_table:
  "list_all (\<lambda>n. is_hexdig (hex_upper n) \<and> hex_value (hex_upper n) = n \<and>
               hex_upper n \<noteq> CHR ''%'' \<and> hex_upper n \<in> set always_safe) [0..<16]"
proof -
  have "[0..<16] = map nat [0..15]"
    by (simp add: upt_rec upto_rec1)
  then show ?thesis
    by (simp add: upto_rec1 is_hexdig_def hex_value_def hex_upper_def in_range_def
        always_safe_def)
qed

lemma hex_upper_props:
  assumes "n < 16"
  shows "is_hexdig (hex_upper n)" and "hex_value (hex_upper n) = n"
    and "hex_upper n \<noteq> CHR ''%''" and "hex_upper n \<in> set always_safe"
proof -
  have "n \<in> set [0..<16]"
    using assms by simp
  then have "is_hexdig (hex_upper n) \<and> hex_value (hex_upper n) = n \<and>
      hex_upper n \<noteq> CHR ''%'' \<and> hex_upper n \<in> set always_safe"
    using hex_upper_table unfolding list_all_iff by blast
  then show "is_hexdig (hex_upper n)" and "hex_value (hex_upper n) = n"
    and "hex_upper n \<noteq> CHR ''%''" and "hex_upper n \<in> set always_safe"
    by simp_all
qed

lemma of_char_lt_256: "(of_char c :: nat) < 256"
proof -
  have "of_char (char_of (of_char c :: nat)) = (of_char c :: nat) mod 256"
    by (rule of_char_of)
  then have "(of_char c :: nat) = of_char c mod 256"
    by simp
  then show ?thesis
    by (metis mod_less_divisor zero_less_numeral)
qed

lemma char_of_div_mod: "char_of (16 * ((of_char c :: nat) div 16) + of_char c mod 16) = c"
  by simp

lemma unquote_item_hex:
  "unquote_item (hex_upper ((of_char b :: nat) div 16) # hex_upper (of_char b mod 16) # rest) = b # rest"
proof -
  have d: "(of_char b :: nat) div 16 < 16"
    using of_char_lt_256 [of b] by arith
  have m: "(of_char b :: nat) mod 16 < 16"
    by simp
  show ?thesis
    by (simp add: unquote_item_def hex_upper_props [OF d] hex_upper_props [OF m])
qed

lemma percent_not_always_safe: "CHR ''%'' \<notin> set always_safe"
  by (simp add: always_safe_def)

lemma byte_quoter_cases:
  obtains (raw) "byte_quoter safe b = [b]" and "b \<in> set always_safe \<or> (b \<in> set safe \<and> is_ascii b)"
  | (escaped) "byte_quoter safe b =
        [CHR ''%'', hex_upper ((of_char b :: nat) div 16), hex_upper (of_char b mod 16)]"
      and "b \<notin> set always_safe"
proof (cases "b \<in> set always_safe \<or> (b \<in> set safe \<and> is_ascii b)")
  case True
  then show ?thesis
    using raw by (simp add: byte_quoter_def)
next
  case False
  then show ?thesis
    using escaped by (simp add: byte_quoter_def)
qed

lemma hex_digit_bounds: "(of_char b :: nat) div 16 < 16" "(of_char b :: nat) mod 16 < 16"
  using of_char_lt_256 [of b] by arith+

lemma unquote_impl_Cons_raw: "b \<noteq> CHR ''%'' \<Longrightarrow> unquote_impl (b # s) = b # unquote_impl s"
  by (simp add: unquote_impl_def split: prod.splits)

lemma unquote_impl_escape:
  "unquote_impl (CHR ''%'' # hex_upper ((of_char b :: nat) div 16) # hex_upper (of_char b mod 16) # s)
     = b # unquote_impl s"
  using hex_upper_props(3) [OF hex_digit_bounds(1), of b] hex_upper_props(3) [OF hex_digit_bounds(2), of b]
  by (simp add: unquote_impl_def unquote_item_hex split: prod.splits)

lemma unquote_impl_byte_quoter:
  assumes "CHR ''%'' \<notin> set safe"
  shows "unquote_impl (byte_quoter safe b @ s) = b # unquote_impl s"
proof (cases safe b rule: byte_quoter_cases)
  case raw
  then have "b \<noteq> CHR ''%''"
    using assms percent_not_always_safe by auto
  then show ?thesis
    using raw(1) by (simp add: unquote_impl_Cons_raw)
next
  case escaped
  then show ?thesis
    by (simp add: unquote_impl_escape)
qed

lemma unquote_impl_Nil: "unquote_impl [] = []"
  by (simp add: unquote_impl_def)

lemma unquote_impl_quote:
  "CHR ''%'' \<notin> set safe \<Longrightarrow> unquote_impl (quote_from_bytes safe t) = t"
  by (induction t) (simp_all add: quote_from_bytes_def unquote_impl_Nil unquote_impl_byte_quoter)

lemma always_safe_ascii: "c \<in> set always_safe \<Longrightarrow> is_ascii c"
  by (auto simp: always_safe_def is_ascii_def)

lemma byte_quoter_chars:
  "c \<in> set (byte_quoter safe b) \<Longrightarrow>
   c \<in> set always_safe \<or> (c \<in> set safe \<and> is_ascii c) \<or> c = CHR ''%''"
  using hex_upper_props(4) [OF hex_digit_bounds(1), of b] hex_upper_props(4) [OF hex_digit_bounds(2), of b]
  by (cases safe b rule: byte_quoter_cases) auto

lemma quote_chars:
  "c \<in> set (quote_from_bytes safe t) \<Longrightarrow>
   c \<in> set always_safe \<or> (c \<in> set safe \<and> is_ascii c) \<or> c = CHR ''%''"
  by (auto simp: quote_from_bytes_def dest: byte_quoter_chars)

lemma quote_ascii: "list_all is_ascii (quote_from_bytes safe t)"
proof -
  have "is_ascii c" if "c \<in> set (quote_from_bytes safe t)" for c
  proof -
    have "is_ascii CHR ''%''"
      by (simp add: is_ascii_def)
    then show ?thesis
      using quote_chars [OF that] always_safe_ascii by auto
  qed
  then show ?thesis
    by (simp add: list_all_iff)
qed

lemma quote_no_percent_id:
  "CHR ''%'' \<notin> set (quote_from_bytes safe t) \<Longrightarrow> quote_from_bytes safe t = t"
proof (induction t)
  case Nil
  then show ?case by (simp add: quote_from_bytes_def)
next
  case (Cons b t)
  then show ?case
    by (cases safe b rule: byte_quoter_cases) (auto simp: quote_from_bytes_def)
qed

lemma unquoted_parts_ascii:
  "list_all is_ascii s \<Longrightarrow> unquoted_parts run s = decode_replace (unquote_impl (rev run @ s))"
  by (induction s arbitrary: run) auto

lemma decode_replace_valid: "utf8_valid s \<Longrightarrow> decode_replace s = s"
proof (induction s rule: utf8_valid.induct)
  case 1
  then show ?case by simp
next
  case (2 b0 bs)
  then show ?case
    by (simp add: Let_def)
qed

lemma unquote_quote:
  assumes "utf8_valid t" and "CHR ''%'' \<notin> set safe"
  shows "unquote (quote_from_bytes safe t) = t"
proof (cases "CHR ''%'' \<in> set (quote_from_bytes safe t)")
  case False
  then have "unquote (quote_from_bytes safe t) = quote_from_bytes safe t"
    by (simp add: unquote_def)
  then show ?thesis
    using quote_no_percent_id [OF False] by simp
next
  case True
  then show ?thesis
    using assms
    by (simp add: unquote_def unquoted_parts_ascii [OF quote_ascii] unquote_impl_quote
        decode_replace_valid)
qed

section \<open>Well-formed UTF-8 and the encoder\<close>

lemma char_eq_of_char: "(c = d) = ((of_char c :: nat) = of_char d)"
  by (metis char_of_char)

lemma in_range_char_of: "(n::nat) < 256 \<Longrightarrow> in_range lo hi (char_of n) = (lo \<le> n \<and> n \<le> hi)"
  by (simp add: in_range_def)

lemma seq_len_char_of:
  "(n::nat) < 256 \<Longrightarrow> seq_len (char_of n) =
     (if n \<le> 0x7F then 1 else if 0xC2 \<le> n \<and> n \<le> 0xDF then 2
      else if 0xE0 \<le> n \<and> n \<le> 0xEF then 3 else if 0xF0 \<le> n \<and> n \<le> 0xF4 then 4 else 0)"
  by (simp add: seq_len_def in_range_char_of)

lemma second_ok_char_of:
  "(n::nat) < 256 \<Longrightarrow> (m::nat) < 256 \<Longrightarrow> second_ok (char_of n) (char_of m) =
     (if n = 0xE0 then 0xA0 \<le> m \<and> m \<le> 0xBF
      else if n = 0xED then 0x80 \<le> m \<and> m \<le> 0x9F
      else if n = 0xF0 then 0x90 \<le> m \<and> m \<le> 0xBF
      else if n = 0xF4 then 0x80 \<le> m \<and> m \<le> 0x8F
      else 0x80 \<le> m \<and> m \<le> 0xBF)"
  by (simp add: second_ok_def in_range_char_of char_eq_of_char [of "char_of n"])

lemma is_cont_char_of: "(n::nat) < 256 \<Longrightarrow> is_cont (char_of n) = (0x80 \<le> n \<and> n \<le> 0xBF)"
  by (simp add: is_cont_def in_range_char_of)

lemma cont_byte: "is_cont (char_of (0x80 + (k::nat) mod 64))"
proof -
  have "0x80 + k mod 64 < 256" "0x80 \<le> 0x80 + k mod 64" "0x80 + k mod 64 \<le> 0xBF"
    by arith+
  then show ?thesis
    by (simp add: is_cont_char_of)
qed

lemma div_zero_less:
  fixes cp :: nat
  assumes "cp div n = 0" and "0 < n"
  shows "cp < n"
proof -
  have "cp = n * (cp div n) + cp mod n"
    by simp
  then have "cp = cp mod n"
    using assms(1) by simp
  moreover have "cp mod n < n"
    using assms(2) by simp
  ultimately show ?thesis
    by simp
qed

lemma div_eq_less:
  fixes cp :: nat
  assumes "cp div n = k" and "0 < n"
  shows "cp < (k + 1) * n"
proof -
  have "cp = n * (cp div n) + cp mod n"
    by simp
  then have "cp = n * k + cp mod n"
    using assms(1) by simp
  moreover have "cp mod n < n"
    using assms(2) by simp
  ultimately have "cp < n * k + n"
    by linarith
  then show ?thesis
    by (simp add: algebra_simps)
qed

lemma second_byte_low:
  fixes cp :: nat
  assumes "32 * 64 \<le> cp" and "cp div (64 * 64) = 0"
  shows "32 \<le> cp div 64 mod 64"
proof -
  have "cp < 64 * 64"
    using div_zero_less [OF assms(2)] by simp
  then have lt: "cp div 64 < 64"
    by (simp add: less_mult_imp_div_less)
  have "(32 * 64) div 64 \<le> cp div 64"
    using assms(1) by (rule div_le_mono)
  then have "32 \<le> cp div 64"
    by simp
  then show ?thesis
    using lt by simp
qed

lemma second_byte_high:
  fixes cp :: nat
  assumes "cp div (64 * 64) = k" and "cp < (64 * k + 32) * 64"
  shows "cp div 64 mod 64 < 32"
proof -
  have q: "cp div 64 div 64 = k"
    using assms(1) by (simp add: div_mult2_eq)
  have lt: "cp div 64 < 64 * k + 32"
    using assms(2) by (simp add: less_mult_imp_div_less)
  have "cp div 64 = 64 * (cp div 64 div 64) + cp div 64 mod 64"
    by simp
  then have "cp div 64 = 64 * k + cp div 64 mod 64"
    using q by simp
  then show ?thesis
    using lt by linarith
qed

lemma third_byte_low:
  fixes cp :: nat
  assumes "16 * 4096 \<le> cp" and "cp div (4096 * 64) = 0"
  shows "16 \<le> cp div 4096 mod 64"
proof -
  have "cp < 4096 * 64"
    using div_zero_less [OF assms(2)] by simp
  then have lt: "cp div 4096 < 64"
    by (simp add: less_mult_imp_div_less)
  have "(16 * 4096) div 4096 \<le> cp div 4096"
    using assms(1) by (rule div_le_mono)
  then have "16 \<le> cp div 4096"
    by simp
  then show ?thesis
    using lt by simp
qed

lemma third_byte_high:
  fixes cp :: nat
  assumes "cp div (4096 * 64) = 4" and "cp < (64 * 4 + 16) * 4096"
  shows "cp div 4096 mod 64 < 16"
proof -
  have q: "cp div 4096 div 64 = 4"
    using assms(1) by (simp add: div_mult2_eq)
  have lt: "cp div 4096 < 64 * 4 + 16"
    using assms(2) by (simp add: less_mult_imp_div_less)
  have "cp div 4096 = 64 * (cp div 4096 div 64) + cp div 4096 mod 64"
    by simp
  then have "cp div 4096 = 64 * 4 + cp div 4096 mod 64"
    using q by simp
  then show ?thesis
    using lt by linarith
qed

lemma utf8_valid_encode:
  assumes "scalar_value cp"
  shows "utf8_valid (utf8_encode cp @ s) = utf8_valid s"
proof -
  consider (one) "cp < 0x80" | (two) "0x80 \<le> cp" "cp < 0x800"
    | (three) "0x800 \<le> cp" "cp < 0x10000" | (four) "0x10000 \<le> cp"
    by linarith
  then show ?thesis
  proof cases
    case one
    then show ?thesis
      by (simp add: utf8_encode_def seq_len_char_of cont_run_def split: list.splits)
  next
    case two
    define a where "a = 0xC0 + cp div 64"
    define b where "b = 0x80 + cp mod 64"
    have a: "0xC2 \<le> a" "a \<le> 0xDF" "a < 256"
      using two unfolding a_def by arith+
    have b: "0x80 \<le> b" "b \<le> 0xBF" "b < 256"
      unfolding b_def by arith+
    have enc: "utf8_encode cp = [char_of a, char_of b]"
      using two by (simp add: utf8_encode_def a_def b_def)
    show ?thesis
      using a b by (simp add: enc seq_len_char_of cont_run_def second_ok_char_of)
  next
    case three
    define a where "a = 0xE0 + cp div 4096"
    define b where "b = 0x80 + cp div 64 mod 64"
    define c where "c = 0x80 + cp mod 64"
    have a: "0xE0 \<le> a" "a \<le> 0xEF" "a < 256"
      using three unfolding a_def by arith+
    have b: "0x80 \<le> b" "b \<le> 0xBF" "b < 256"
      unfolding b_def by arith+
    have b0: "0xA0 \<le> b" if "a = 0xE0"
    proof -
      have "cp div (64 * 64) = 0"
        using that by (simp add: a_def)
      then have "32 \<le> cp div 64 mod 64"
        using three(1) by (intro second_byte_low) simp_all
      then show ?thesis
        by (simp add: b_def)
    qed
    have bD: "b \<le> 0x9F" if "a = 0xED"
    proof -
      have k: "cp div (64 * 64) = 13"
        using that by (simp add: a_def)
      then have "cp div 4096 = 13"
        by simp
      then have "cp < (13 + 1) * 4096"
        by (rule div_eq_less) simp
      then have "cp < 14 * 4096"
        by simp
      then have "cp < (64 * 13 + 32) * 64"
        using assms by (simp add: scalar_value_def)
      then have "cp div 64 mod 64 < 32"
        using k by (intro second_byte_high [of cp 13]) simp_all
      then show ?thesis
        by (simp add: b_def)
    qed
    have c: "is_cont (char_of c)"
      unfolding c_def by (rule cont_byte)
    have enc: "utf8_encode cp = [char_of a, char_of b, char_of c]"
      using three by (simp add: utf8_encode_def a_def b_def c_def)
    show ?thesis
      using a b b0 bD c by (simp add: enc seq_len_char_of cont_run_def second_ok_char_of)
  next
    case four
    have lt: "cp < 0x110000"
      using assms by (simp add: scalar_value_def)
    define a where "a = 0xF0 + cp div 262144"
    define b where "b = 0x80 + cp div 4096 mod 64"
    define c where "c = 0x80 + cp div 64 mod 64"
    define d where "d = 0x80 + cp mod 64"
    have a: "0xF0 \<le> a" "a \<le> 0xF4" "a < 256"
      using four lt unfolding a_def by arith+
    have b: "0x80 \<le> b" "b \<le> 0xBF" "b < 256"
      unfolding b_def by arith+
    have b0: "0x90 \<le> b" if "a = 0xF0"
    proof -
      have "cp div (4096 * 64) = 0"
        using that by (simp add: a_def)
      then have "16 \<le> cp div 4096 mod 64"
        using four by (intro third_byte_low) simp_all
      then show ?thesis
        by (simp add: b_def)
    qed
    have b4: "b \<le> 0x8F" if "a = 0xF4"
    proof -
      have "cp div (4096 * 64) = 4"
        using that by (simp add: a_def)
      then have "cp div 4096 mod 64 < 16"
        using lt by (intro third_byte_high) simp_all
      then show ?thesis
        by (simp add: b_def)
    qed
    have c: "is_cont (char_of c)" "is_cont (char_of d)"
      unfolding c_def d_def by (rule cont_byte)+
    have enc: "utf8_encode cp = [char_of a, char_of b, char_of c, char_of d]"
      using four by (simp add: utf8_encode_def a_def b_def c_def d_def)
    show ?thesis
      using a b b0 b4 c by (simp add: enc seq_len_char_of cont_run_def second_ok_char_of)
  qed
qed

lemma encode_utf8_valid: "list_all scalar_value cps \<Longrightarrow> utf8_valid (encode_utf8 cps)"
  by (induction cps) (simp_all add: encode_utf8_def utf8_valid_encode)

section \<open>Extraction from an encoded URL\<close>

lemma delimiters_not_safe:
  assumes "c \<in> set ''/?#;'' \<or> unsafe_url_byte c"
  shows "c \<notin> set always_safe \<and> c \<noteq> CHR ''%''"
proof -
  have "c = CHR ''/'' \<or> c = CHR ''?'' \<or> c = CHR ''#'' \<or> c = CHR '';'' \<or> c = CHR 0x09 \<or>
      c = CHR 0x0D \<or> c = CHR 0x0A"
    using assms by (auto simp: unsafe_url_byte_def)
  then show ?thesis
    by (elim disjE) (simp_all add: always_safe_def)
qed

lemma encoded_segment_excludes:
  assumes "set enc \<subseteq> set always_safe \<union> {CHR ''%''}"
    and "c \<in> set ''/?#;'' \<or> unsafe_url_byte c"
  shows "c \<notin> set enc"
  using assms(1) delimiters_not_safe [OF assms(2)] by blast

lemma extract_encoded_segment:
  assumes "set enc \<subseteq> set always_safe \<union> {CHR ''%''}"
  shows "extract_title_from_wiki_url lib (''https://en.wikipedia.org/wiki/'' @ enc) =
           Some (unquote enc)"
proof -
  define base where "base = ''https://en.wikipedia.org/wiki/''"
  define rest where "rest = ''//en.wikipedia.org/wiki/''"
  define pth where "pth = ''/wiki/''"
  have f: "filter (\<lambda>c. \<not> unsafe_url_byte c) enc = enc"
    using encoded_segment_excludes [OF assms] by (auto simp: filter_id_conv)
  have n: "CHR ''/'' \<notin> set enc" "CHR ''?'' \<notin> set enc" "CHR ''#'' \<notin> set enc"
    "CHR '';'' \<notin> set enc"
    using encoded_segment_excludes [OF assms] by simp_all
  have a: "dropWhile c0_control_or_space (base @ enc) = base @ enc"
    by (simp add: base_def c0_control_or_space_def in_range_def)
  have b: "filter (\<lambda>c. \<not> unsafe_url_byte c) base = base"
    by (simp add: base_def unsafe_url_byte_def)
  have c: "split_scheme (base @ enc) = (''https'', rest @ enc)"
    by (simp add: base_def rest_def split_scheme_def before_first_def after_first_def
        ascii_letters_def digits_def scheme_chars_def ascii_lower_def in_range_def)
  have d: "take 2 (rest @ enc) = ''//''" "splitnetloc (rest @ enc) = (''en.wikipedia.org'', pth @ enc)"
    by (simp_all add: rest_def pth_def splitnetloc_def netloc_delim_def)
  have e: "split_once CHR ''#'' (pth @ enc) = (pth @ enc, [])"
    "split_once CHR ''?'' (pth @ enc) = (pth @ enc, [])"
    using n by (simp_all add: pth_def split_once_def)
  have s: "urlsplit lib (base @ enc) =
             Inr \<lparr>scheme = ''https'', netloc = ''en.wikipedia.org'', path = pth @ enc,
                  query = [], fragment = []\<rparr>"
    by (simp add: urlsplit_def a b f c d e is_ascii_def del: take_append)
  have sc: "CHR '';'' \<notin> set (pth @ enc)"
    using n by (simp add: pth_def)
  have p: "urlparse lib (base @ enc) =
             Inr \<lparr>scheme = ''https'', netloc = ''en.wikipedia.org'', path = pth @ enc,
                  query = [], fragment = [], params = []\<rparr>"
    using sc by (simp add: urlparse_def s)
  have sp: "py_split CHR ''/'' (pth @ enc) = [[], ''wiki'', enc]"
    using n(1) by (simp add: pth_def py_split_def split_aux_no_sep)
  have "extract_title_from_wiki_url lib (base @ enc) = Some (unquote enc)"
    by (simp add: extract_title_from_wiki_url_def p sp)
  then show ?thesis
    by (simp only: base_def)
qed

section \<open>The title round trip\<close>

lemma quote_no_slash_chars:
  assumes "CHR ''/'' \<notin> set title"
  shows "set (quote title) \<subseteq> set always_safe \<union> {CHR ''%''}"
proof
  fix c
  assume c: "c \<in> set (quote title)"
  then obtain b where b: "b \<in> set title" "c \<in> set (byte_quoter ''/'' b)"
    by (auto simp: quote_def quote_from_bytes_def)
  then have ne: "b \<noteq> CHR ''/''"
    using assms by auto
  show "c \<in> set always_safe \<union> {CHR ''%''}"
  proof (cases "''/''" b rule: byte_quoter_cases)
    case raw
    then have "c = b" and "b \<in> set always_safe"
      using b(2) ne by simp_all
    then show ?thesis
      by simp
  next
    case escaped
    then have "c = CHR ''%'' \<or> c = hex_upper ((of_char b :: nat) div 16) \<or>
        c = hex_upper ((of_char b :: nat) mod 16)"
      using b(2) by simp
    then show ?thesis
      using hex_upper_props(4) [OF hex_digit_bounds(1), of b]
        hex_upper_props(4) [OF hex_digit_bounds(2), of b]
      by blast
  qed
qed

lemma quote_all_chars: "set (quote_from_bytes [] title) \<subseteq> set always_safe \<union> {CHR ''%''}"
  using quote_chars [of _ "[]" title] by auto

text \<open>
  Claim C3, as amended. The repository's percent-encoder is \<open>urllib.parse.quote\<close> with
  its default \<open>safe='/'\<close>, which leaves a slash in the title raw; title extraction takes
  one path segment. So, for every title (a well-formed string, see \<open>encode_utf8_valid\<close>):
  if the title has no slash, encoding it with \<open>quote\<close>, appending it to
  \<open>https://en.wikipedia.org/wiki/\<close> and extracting yields the title; and when the slash
  is escaped too (\<open>quote(title, safe='')\<close>), this holds for every title.
\<close>

theorem title_round_trip:
  assumes "utf8_valid title"
  shows "(CHR ''/'' \<notin> set title \<longrightarrow>
            extract_title_from_wiki_url lib (''https://en.wikipedia.org/wiki/'' @ quote title) =
              Some title) \<and>
         extract_title_from_wiki_url lib
            (''https://en.wikipedia.org/wiki/'' @ quote_from_bytes [] title) = Some title"
proof -
  have "unquote (quote title) = title"
    using unquote_quote [OF assms, of "''/''"] by (simp add: quote_def)
  moreover have "unquote (quote_from_bytes [] title) = title"
    using unquote_quote [OF assms, of "[]"] by simp
  ultimately show ?thesis
    using extract_encoded_segment [OF quote_no_slash_chars, of title lib]
      extract_encoded_segment [OF quote_all_chars, of lib title]
    by simp
qed

theorem title_round_trip_witness:
  "extract_title_from_wiki_url
     \<lparr>bracketed_host_invalid = (\<lambda>n. True), nfkc_netloc_invalid = (\<lambda>n. True)\<rparr>
     (''https://en.wikipedia.org/wiki/'' @ quote ([CHR 0xC3, CHR 0x89] @ ''mile Zola'')) =
     Some ([CHR 0xC3, CHR 0x89] @ ''mile Zola'') \<and>
   extract_title_from_wiki_url
     \<lparr>bracketed_host_invalid = (\<lambda>n. True), nfkc_netloc_invalid = (\<lambda>n. True)\<rparr>
     (''https://en.wikipedia.org/wiki/'' @ quote_from_bytes [] ([CHR 0xC3, CHR 0x89] @ ''mile Zola'')) =
     Some ([CHR 0xC3, CHR 0x89] @ ''mile Zola'')"
proof -
  have v: "utf8_valid ([CHR 0xC3, CHR 0x89] @ ''mile Zola'')"
    by (simp add: str_defs)
  show ?thesis
    using title_round_trip [OF v] by simp
qed

text \<open>The round trip as the claim states it, for every title, fails on a title with a
  slash: the title \<open>AC/DC\<close> is encoded as \<open>AC/DC\<close> and extraction returns \<open>AC\<close>.\<close>

theorem title_round_trip_counterexample:
  "extract_title_from_wiki_url
     \<lparr>bracketed_host_invalid = (\<lambda>n. True), nfkc_netloc_invalid = (\<lambda>n. True)\<rparr>
     (''https://en.wikipedia.org/wiki/'' @ quote ''AC/DC'') = Some ''AC'' \<and>
   ''AC'' \<noteq> ''AC/DC''"
  by (simp add: str_defs url_defs)

section \<open>The evidence link\<close>

text \<open>
  Claim C7, as the code has it. For every URL and every non-empty evidence that has a
  UTF-8 encoding (a string without lone surrogates), \<open>build_text_fragment_link\<close> returns
  the URL followed by \<open>#:~:text=\<close> and \<open>quote(evidence)\<close>. The quoted evidence
  consists of ASCII letters, digits, \<open>_.-~\<close>, \<open>/\<close> and \<open>%\<close> only, so every other
  character appears as \<open>%XX\<close> escapes and never raw, and decoding it gives the evidence
  back. For a non-empty evidence with a lone surrogate the function raises
  \<open>UnicodeEncodeError\<close>. For absent evidence (and for the empty string) the result is the
  URL unchanged.
\<close>

theorem evidence_link:
  "(e \<noteq> [] \<and> utf8_valid e \<longrightarrow>
      build_text_fragment_link url (Some e) = Inr (url @ ''#:~:text='' @ quote e) \<and>
      set (quote e) \<subseteq> set always_safe \<union> {CHR ''/'', CHR ''%''} \<and>
      unquote (quote e) = e) \<and>
   (e \<noteq> [] \<and> \<not> utf8_valid e \<longrightarrow>
      build_text_fragment_link url (Some e) = Inl UnicodeEncodeError) \<and>
   build_text_fragment_link url (Some []) = Inr url \<and>
   build_text_fragment_link url None = Inr url"
proof -
  have "set (quote e) \<subseteq> set always_safe \<union> {CHR ''/'', CHR ''%''}"
    using quote_chars [of _ "''/''" e] by (auto simp: quote_def)
  moreover have "utf8_valid e \<longrightarrow> unquote (quote e) = e"
    using unquote_quote [of e "''/''"] by (simp add: quote_def)
  ultimately show ?thesis
    by (simp add: build_text_fragment_link_def encode_strict_def)
qed

text \<open>The theorem at work on an evidence with a quote, a comma and an ampersand, and on
  the lone surrogate U+DC00.\<close>

theorem evidence_link_witness:
  \<open>utf8_valid ''born on 10 December 1815, "Ada" & co.'' \<and>
   build_text_fragment_link ''https://en.wikipedia.org/wiki/Ada_Lovelace''
     (Some ''born on 10 December 1815, "Ada" & co.'') =
     Inr ''https://en.wikipedia.org/wiki/Ada_Lovelace#:~:text=born%20on%2010%20December%201815%2C%20%22Ada%22%20%26%20co.'' \<and>
   unquote (quote ''born on 10 December 1815, "Ada" & co.'') =
     ''born on 10 December 1815, "Ada" & co.'' \<and>
   \<not> utf8_valid [CHR 0xED, CHR 0xB0, CHR 0x80] \<and>
   build_text_fragment_link ''https://en.wikipedia.org/wiki/Ada_Lovelace''
     (Some [CHR 0xED, CHR 0xB0, CHR 0x80]) = Inl UnicodeEncodeError\<close>
proof -
  have v: \<open>utf8_valid ''born on 10 December 1815, "Ada" & co.''\<close>
    by (simp add: str_defs)
  have q: \<open>quote ''born on 10 December 1815, "Ada" & co.'' =
      ''born%20on%2010%20December%201815%2C%20%22Ada%22%20%26%20co.''\<close>
    by (simp add: str_defs)
  have s: "\<not> utf8_valid [CHR 0xED, CHR 0xB0, CHR 0x80]"
    by (simp add: str_defs)
  show ?thesis
    using evidence_link [of \<open>''born on 10 December 1815, "Ada" & co.''\<close>
        \<open>''https://en.wikipedia.org/wiki/Ada_Lovelace''\<close>]
      evidence_link [of "[CHR 0xED, CHR 0xB0, CHR 0x80]"
        \<open>''https://en.wikipedia.org/wiki/Ada_Lovelace''\<close>] v q s
    by simp
qed

text \<open>
  Claim C7 as the specification words it, for every non-empty evidence, fails on the
  one-character evidence \<open>"\ud83d"\<close>, a lone surrogate as \<open>json.loads\<close> delivers it:
  \<open>quote\<close> cannot encode it, and the function raises instead of returning a link.
\<close>

theorem evidence_link_counterexample:
  "[CHR 0xED, CHR 0xA0, CHR 0xBD] \<noteq> [] \<and>
   build_text_fragment_link ''https://en.wikipedia.org/wiki/Ada_Lovelace''
     (Some [CHR 0xED, CHR 0xA0, CHR 0xBD]) = Inl UnicodeEncodeError"
  by (simp add: build_text_fragment_link_def encode_strict_def str_defs)

section \<open>Search\<close>

lemma py_slice_to_take: "0 \<le> n \<Longrightarrow> py_slice_to n xs = take (nat n) xs"
  by (simp add: py_slice_to_def)

lemma take_nonempty: "1 \<le> n \<Longrightarrow> xs \<noteq> [] \<Longrightarrow> take (nat n) xs \<noteq> []"
  by (cases xs) (simp_all add: take_Cons')

lemma py_get_not_object: "\<forall>f. x \<noteq> JObj f \<Longrightarrow> py_get x key dflt = Inl AttributeError"
  by (cases x) simp_all

lemma collect_links_objects:
  "collect_links (map JObj items) =
     Inr (filter py_truthy
            (map (\<lambda>f. case map_of f ''link'' of None \<Rightarrow> JNull | Some v \<Rightarrow> v) items))"
  by (induction items) simp_all

lemma collect_links_not_object:
  assumes "\<exists>x\<in>set xs. \<forall>f. x \<noteq> JObj f"
  shows "\<exists>e. collect_links xs = Inl e"
  using assms
proof (induction xs)
  case Nil
  then show ?case by simp
next
  case (Cons x xs)
  show ?case
  proof (cases "\<forall>f. x \<noteq> JObj f")
    case True
    then show ?thesis
      by (simp add: py_get_not_object)
  next
    case False
    then have "\<exists>x\<in>set xs. \<forall>f. x \<noteq> JObj f"
      using Cons.prems by auto
    then obtain e where "collect_links xs = Inl e"
      using Cons.IH by blast
    then show ?thesis
      by (simp split: sum.splits)
  qed
qed

lemma collect_links_strings:
  "collect_links (map JStr ss) = (if ss = [] then Inr [] else Inl AttributeError)"
  by (cases ss) simp_all

lemma links_of_non_list:
  assumes "\<forall>xs. v \<noteq> JList xs"
  shows "(case py_iter v of Inl e \<Rightarrow> Inl e | Inr xs \<Rightarrow> collect_links xs) = Inr [] \<or>
         (\<exists>e. (case py_iter v of Inl e \<Rightarrow> Inl e | Inr xs \<Rightarrow> collect_links xs) = Inl e)"
proof (cases v)
  case JNull
  then show ?thesis by simp
next
  case (JBool b)
  then show ?thesis by simp
next
  case (JInt i)
  then show ?thesis by simp
next
  case (JFloat z)
  then show ?thesis by simp
next
  case (JStr s)
  then show ?thesis
    by (simp add: collect_links_strings)
next
  case (JList xs)
  then show ?thesis
    using assms by simp
next
  case (JObj kvs)
  have "map (\<lambda>kv. JStr (fst kv)) kvs = map JStr (map fst kvs)"
    by simp
  then show ?thesis
    using JObj by (simp only: py_iter.simps sum.case collect_links_strings) simp
qed

lemma truthy_string_links:
  assumes "\<forall>f\<in>set items. \<forall>v. map_of f ''link'' = Some v \<longrightarrow> v = JNull \<or> (\<exists>u. v = JStr u)"
    and "x \<in> set (filter py_truthy
            (map (\<lambda>f. case map_of f ''link'' of None \<Rightarrow> JNull | Some v \<Rightarrow> v) items))"
  shows "\<exists>u. x = JStr u \<and> u \<noteq> []"
proof -
  have "py_truthy x"
    using assms(2) by simp
  moreover obtain f where f: "f \<in> set items"
      and x: "x = (case map_of f ''link'' of None \<Rightarrow> JNull | Some v \<Rightarrow> v)"
    using assms(2) by (auto simp only: set_filter set_map)
  ultimately show ?thesis
  proof (cases "map_of f ''link''")
    case None
    then show ?thesis
      using x \<open>py_truthy x\<close> by simp
  next
    case (Some v)
    then have "v = JNull \<or> (\<exists>u. v = JStr u)"
      using assms(1) f by blast
    moreover have "x = v"
      using x Some by simp
    ultimately show ?thesis
      using \<open>py_truthy x\<close> by (elim disjE exE) simp_all
  qed
qed

lemma search_failure:
  assumes "\<exists>e. result_links search qry = Inl e"
  shows "get_first_n_results_urls search qry n = Inr None"
  using assms by (auto simp add: get_first_n_results_urls_def)

lemma search_result:
  assumes "result_links search qry = Inr links" and "1 \<le> n"
  shows "get_first_n_results_urls search qry n =
           Inr (if links = [] then None else Some (take (nat n) links))"
  using assms by (simp add: get_first_n_results_urls_def py_slice_to_take)

lemma result_links_ok:
  assumes "search qry = Inr resp"
    and "\<not> (400 \<le> json_status resp \<and> json_status resp < 600)"
    and "json_body resp = Inr (JObj kvs)"
  shows "result_links search qry =
           (case py_iter (case map_of kvs ''items'' of None \<Rightarrow> JList [] | Some v \<Rightarrow> v) of
              Inl e \<Rightarrow> Inl e
            | Inr xs \<Rightarrow> collect_links xs)"
proof -
  have "json_raise_for_status resp = Inr ()"
    using assms(2) by (auto simp add: json_raise_for_status_def)
  then show ?thesis
    using assms(1,3) by (simp add: result_links_def)
qed

lemma result_links_bad_status:
  assumes "search qry = Inr resp"
    and "400 \<le> json_status resp \<and> json_status resp < 600"
  shows "result_links search qry = Inl HTTPError"
  using assms by (simp add: result_links_def json_raise_for_status_def)

lemma result_links_body:
  assumes "search qry = Inr resp" and "json_body resp = Inr data"
  shows "(\<exists>e. result_links search qry = Inl e) \<or>
         result_links search qry =
           (case py_get data ''items'' (JList []) of
              Inl e \<Rightarrow> Inl e
            | Inr items \<Rightarrow>
                (case py_iter items of Inl e \<Rightarrow> Inl e | Inr xs \<Rightarrow> collect_links xs))"
  using assms by (simp add: result_links_def split: sum.splits)

text \<open>
  Claim C8, as the code has it. For every query and every requested count \<open>n \<ge> 1\<close>, the
  search step does not raise, and a list it returns is not empty and has at most \<open>n\<close>
  elements. It returns \<open>None\<close> when the collaborator fails: the request
  raises, the status is an error (400 to 599), the body is not JSON, the body is not an
  object, its \<open>items\<close> are not a list, or an item is not an object. For a response whose
  items are objects, the ranked result links are the \<open>link\<close> fields that are not empty,
  in order; the step returns \<open>None\<close> when there is none, and otherwise the first \<open>n\<close> of
  them: a non-empty prefix, of length at most \<open>n\<close>. The links are returned as delivered:
  they are non-empty strings when every \<open>link\<close> field of the response is a string or
  \<open>null\<close>.
\<close>

theorem search_returns_prefix:
  assumes "1 \<le> n"
  shows "(search qry = Inl e \<longrightarrow> get_first_n_results_urls search qry n = Inr None) \<and>
         (search qry = Inr resp \<and> 400 \<le> json_status resp \<and> json_status resp < 600 \<longrightarrow>
            get_first_n_results_urls search qry n = Inr None) \<and>
         (search qry = Inr resp \<and> json_body resp = Inl e' \<longrightarrow>
            get_first_n_results_urls search qry n = Inr None) \<and>
         (search qry = Inr resp \<and> json_body resp = Inr data \<and> (\<forall>f. data \<noteq> JObj f) \<longrightarrow>
            get_first_n_results_urls search qry n = Inr None) \<and>
         (search qry = Inr resp \<and> json_body resp = Inr (JObj kvs) \<and>
          map_of kvs ''items'' = Some v \<and> (\<forall>xs. v \<noteq> JList xs) \<longrightarrow>
            get_first_n_results_urls search qry n = Inr None) \<and>
         (search qry = Inr resp \<and> json_body resp = Inr (JObj kvs) \<and>
          map_of kvs ''items'' = Some (JList xs) \<and> (\<exists>x\<in>set xs. \<forall>f. x \<noteq> JObj f) \<longrightarrow>
            get_first_n_results_urls search qry n = Inr None) \<and>
         (search qry = Inr resp \<and> \<not> (400 \<le> json_status resp \<and> json_status resp < 600) \<and>
          json_body resp = Inr (JObj kvs) \<and>
          (case map_of kvs ''items'' of None \<Rightarrow> JList [] | Some v \<Rightarrow> v) = JList (map JObj items) \<and>
          links = filter py_truthy
                    (map (\<lambda>f. case map_of f ''link'' of None \<Rightarrow> JNull | Some v \<Rightarrow> v) items) \<longrightarrow>
            get_first_n_results_urls search qry n =
              Inr (if links = [] then None else Some (take (nat n) links)) \<and>
            (links \<noteq> [] \<longrightarrow>
               take (nat n) links \<noteq> [] \<and> length (take (nat n) links) \<le> nat n \<and>
               prefix (take (nat n) links) links) \<and>
            ((\<forall>f\<in>set items. \<forall>v. map_of f ''link'' = Some v \<longrightarrow>
                 v = JNull \<or> (\<exists>u. v = JStr u)) \<longrightarrow>
               (\<forall>x\<in>set links. \<exists>u. x = JStr u \<and> u \<noteq> []))) \<and>
         (\<exists>res. get_first_n_results_urls search qry n = Inr res) \<and>
         (get_first_n_results_urls search qry n = Inr (Some urls) \<longrightarrow>
            urls \<noteq> [] \<and> length urls \<le> nat n)"
proof -
  have raised: "search qry = Inl e \<longrightarrow> get_first_n_results_urls search qry n = Inr None"
  proof
    assume "search qry = Inl e"
    then have "result_links search qry = Inl e"
      by (simp add: result_links_def)
    then show "get_first_n_results_urls search qry n = Inr None"
      using search_failure [of search qry n] by blast
  qed
  have status: "search qry = Inr resp \<and> 400 \<le> json_status resp \<and> json_status resp < 600 \<longrightarrow>
      get_first_n_results_urls search qry n = Inr None"
  proof
    assume "search qry = Inr resp \<and> 400 \<le> json_status resp \<and> json_status resp < 600"
    then have "result_links search qry = Inl HTTPError"
      using result_links_bad_status [of search qry resp] by blast
    then show "get_first_n_results_urls search qry n = Inr None"
      using search_failure [of search qry n] by blast
  qed
  have body: "search qry = Inr resp \<and> json_body resp = Inl e' \<longrightarrow>
      get_first_n_results_urls search qry n = Inr None"
  proof
    assume "search qry = Inr resp \<and> json_body resp = Inl e'"
    then have "\<exists>x. result_links search qry = Inl x"
      by (simp add: result_links_def split: sum.splits)
    then show "get_first_n_results_urls search qry n = Inr None"
      by (rule search_failure)
  qed
  have shape: "search qry = Inr resp \<and> json_body resp = Inr data \<and> (\<forall>f. data \<noteq> JObj f) \<longrightarrow>
      get_first_n_results_urls search qry n = Inr None"
  proof
    assume a: "search qry = Inr resp \<and> json_body resp = Inr data \<and> (\<forall>f. data \<noteq> JObj f)"
    then have "py_get data ''items'' (JList []) = Inl AttributeError"
      using py_get_not_object [of data] by blast
    then have "\<exists>x. result_links search qry = Inl x"
      using result_links_body [of search qry resp data] a by auto
    then show "get_first_n_results_urls search qry n = Inr None"
      by (rule search_failure)
  qed
  have no_list: "search qry = Inr resp \<and> json_body resp = Inr (JObj kvs) \<and>
      map_of kvs ''items'' = Some v \<and> (\<forall>xs. v \<noteq> JList xs) \<longrightarrow>
      get_first_n_results_urls search qry n = Inr None"
  proof
    assume a: "search qry = Inr resp \<and> json_body resp = Inr (JObj kvs) \<and>
      map_of kvs ''items'' = Some v \<and> (\<forall>xs. v \<noteq> JList xs)"
    define found where
      "found = (case py_iter v of Inl e \<Rightarrow> Inl e | Inr xs \<Rightarrow> collect_links xs)"
    have "(\<exists>x. result_links search qry = Inl x) \<or> result_links search qry = found"
      using result_links_body [of search qry resp "JObj kvs"] a by (simp add: found_def)
    moreover have "found = Inr [] \<or> (\<exists>x. found = Inl x)"
      unfolding found_def using links_of_non_list [of v] a by blast
    ultimately have "(\<exists>x. result_links search qry = Inl x) \<or> result_links search qry = Inr []"
      by metis
    then show "get_first_n_results_urls search qry n = Inr None"
    proof
      assume "\<exists>x. result_links search qry = Inl x"
      then show ?thesis
        by (rule search_failure)
    next
      assume "result_links search qry = Inr []"
      then show ?thesis
        using search_result [of search qry "[]" n] assms by simp
    qed
  qed
  have item: "search qry = Inr resp \<and> json_body resp = Inr (JObj kvs) \<and>
      map_of kvs ''items'' = Some (JList xs) \<and> (\<exists>x\<in>set xs. \<forall>f. x \<noteq> JObj f) \<longrightarrow>
      get_first_n_results_urls search qry n = Inr None"
  proof
    assume a: "search qry = Inr resp \<and> json_body resp = Inr (JObj kvs) \<and>
      map_of kvs ''items'' = Some (JList xs) \<and> (\<exists>x\<in>set xs. \<forall>f. x \<noteq> JObj f)"
    obtain x where "collect_links xs = Inl x"
      using collect_links_not_object [of xs] a by blast
    then have "\<exists>x. result_links search qry = Inl x"
      using result_links_body [of search qry resp "JObj kvs"] a by auto
    then show "get_first_n_results_urls search qry n = Inr None"
      by (rule search_failure)
  qed
  have found: "search qry = Inr resp \<and> \<not> (400 \<le> json_status resp \<and> json_status resp < 600) \<and>
      json_body resp = Inr (JObj kvs) \<and>
      (case map_of kvs ''items'' of None \<Rightarrow> JList [] | Some v \<Rightarrow> v) = JList (map JObj items) \<and>
      links = filter py_truthy
                (map (\<lambda>f. case map_of f ''link'' of None \<Rightarrow> JNull | Some v \<Rightarrow> v) items) \<longrightarrow>
        get_first_n_results_urls search qry n =
          Inr (if links = [] then None else Some (take (nat n) links)) \<and>
        (links \<noteq> [] \<longrightarrow>
           take (nat n) links \<noteq> [] \<and> length (take (nat n) links) \<le> nat n \<and>
           prefix (take (nat n) links) links) \<and>
        ((\<forall>f\<in>set items. \<forall>v. map_of f ''link'' = Some v \<longrightarrow>
             v = JNull \<or> (\<exists>u. v = JStr u)) \<longrightarrow>
           (\<forall>x\<in>set links. \<exists>u. x = JStr u \<and> u \<noteq> []))"
  proof
    assume a: "search qry = Inr resp \<and> \<not> (400 \<le> json_status resp \<and> json_status resp < 600) \<and>
      json_body resp = Inr (JObj kvs) \<and>
      (case map_of kvs ''items'' of None \<Rightarrow> JList [] | Some v \<Rightarrow> v) = JList (map JObj items) \<and>
      links = filter py_truthy
                (map (\<lambda>f. case map_of f ''link'' of None \<Rightarrow> JNull | Some v \<Rightarrow> v) items)"
    then have "result_links search qry = Inr links"
      using result_links_ok [of search qry resp kvs]
      by (simp add: collect_links_objects)
    then have r: "get_first_n_results_urls search qry n =
        Inr (if links = [] then None else Some (take (nat n) links))"
      using assms by (rule search_result)
    have p: "links \<noteq> [] \<longrightarrow>
        take (nat n) links \<noteq> [] \<and> length (take (nat n) links) \<le> nat n \<and>
        prefix (take (nat n) links) links"
      using take_nonempty [OF assms, of links] by (simp add: take_is_prefix)
    have t: "(\<forall>f\<in>set items. \<forall>v. map_of f ''link'' = Some v \<longrightarrow>
          v = JNull \<or> (\<exists>u. v = JStr u)) \<longrightarrow>
        (\<forall>x\<in>set links. \<exists>u. x = JStr u \<and> u \<noteq> [])"
      using truthy_string_links [of items] a by blast
    from r p t show "get_first_n_results_urls search qry n =
          Inr (if links = [] then None else Some (take (nat n) links)) \<and>
        (links \<noteq> [] \<longrightarrow>
           take (nat n) links \<noteq> [] \<and> length (take (nat n) links) \<le> nat n \<and>
           prefix (take (nat n) links) links) \<and>
        ((\<forall>f\<in>set items. \<forall>v. map_of f ''link'' = Some v \<longrightarrow>
             v = JNull \<or> (\<exists>u. v = JStr u)) \<longrightarrow>
           (\<forall>x\<in>set links. \<exists>u. x = JStr u \<and> u \<noteq> []))"
      by (intro conjI)
  qed
  have returns: "\<exists>res. get_first_n_results_urls search qry n = Inr res"
    by (simp add: get_first_n_results_urls_def split: sum.splits)
  have bound: "get_first_n_results_urls search qry n = Inr (Some urls) \<longrightarrow>
      urls \<noteq> [] \<and> length urls \<le> nat n"
  proof
    assume g: "get_first_n_results_urls search qry n = Inr (Some urls)"
    then obtain all_links where "result_links search qry = Inr all_links"
      by (cases "result_links search qry") (simp_all add: get_first_n_results_urls_def)
    then have "get_first_n_results_urls search qry n =
        Inr (if all_links = [] then None else Some (take (nat n) all_links))"
      using assms by (rule search_result)
    then have "all_links \<noteq> []" and "urls = take (nat n) all_links"
      using g by (simp_all split: if_splits)
    then show "urls \<noteq> [] \<and> length urls \<le> nat n"
      using take_nonempty [OF assms, of all_links] by simp
  qed
  from raised status body shape no_list item found returns bound show ?thesis
    by (intro conjI)
qed

text \<open>The theorem at work: a request that raises, a status 500, a body that is not JSON,
  a body that is a list, items that are a number, an item that is a string, and a
  response with three links of which two are asked for.\<close>

theorem search_returns_prefix_witness:
  "get_first_n_results_urls (\<lambda>q. Inl ConnectionError) ''Ada'' 2 = Inr None \<and>
   get_first_n_results_urls (\<lambda>q. Inr \<lparr>json_status = 500, json_body = Inr (JObj [])\<rparr>) ''Ada'' 2 = Inr None \<and>
   get_first_n_results_urls (\<lambda>q. Inr \<lparr>json_status = 200, json_body = Inl JSONDecodeError\<rparr>) ''Ada'' 2 = Inr None \<and>
   get_first_n_results_urls (\<lambda>q. Inr \<lparr>json_status = 200, json_body = Inr (JList [])\<rparr>) ''Ada'' 2 = Inr None \<and>
   get_first_n_results_urls (\<lambda>q. Inr \<lparr>json_status = 200, json_body = Inr (JObj [(''items'', JInt 3)])\<rparr>) ''Ada'' 2 = Inr None \<and>
   get_first_n_results_urls (\<lambda>q. Inr \<lparr>json_status = 200, json_body = Inr (JObj [(''items'', JList [JStr ''http://a''])])\<rparr>) ''Ada'' 2 = Inr None \<and>
   get_first_n_results_urls
     (\<lambda>q. Inr \<lparr>json_status = 200, json_body = Inr (JObj
          [(''items'', JList (map JObj
            [[(''link'', JStr ''http://a'')], [(''title'', JStr ''no link'')],
             [(''link'', JStr ''http://b'')], [(''link'', JStr ''http://c'')]]))])\<rparr>)
     ''Ada'' 2 = Inr (Some [JStr ''http://a'', JStr ''http://b'']) \<and>
   prefix [JStr ''http://a'', JStr ''http://b'']
     [JStr ''http://a'', JStr ''http://b'', JStr ''http://c'']"
proof -
  have n: "(1::int) \<le> 2"
    by simp
  have raised: "get_first_n_results_urls (\<lambda>q. Inl ConnectionError) ''Ada'' 2 = Inr None"
    using search_returns_prefix [OF n, where search = "\<lambda>q. Inl ConnectionError" and qry = "''Ada''"
        and e = ConnectionError]
    by simp
  have status: "get_first_n_results_urls (\<lambda>q. Inr \<lparr>json_status = 500, json_body = Inr (JObj [])\<rparr>) ''Ada'' 2 = Inr None"
    using search_returns_prefix [OF n, where search = "\<lambda>q. Inr \<lparr>json_status = 500, json_body = Inr (JObj [])\<rparr>" and qry = "''Ada''"
        and resp = "\<lparr>json_status = 500, json_body = Inr (JObj [])\<rparr>"]
    by simp
  have body: "get_first_n_results_urls (\<lambda>q. Inr \<lparr>json_status = 200, json_body = Inl JSONDecodeError\<rparr>) ''Ada'' 2 = Inr None"
    using search_returns_prefix [OF n, where search = "\<lambda>q. Inr \<lparr>json_status = 200, json_body = Inl JSONDecodeError\<rparr>" and qry = "''Ada''"
        and resp = "\<lparr>json_status = 200, json_body = Inl JSONDecodeError\<rparr>" and e' = JSONDecodeError]
    by simp
  have shape: "get_first_n_results_urls (\<lambda>q. Inr \<lparr>json_status = 200, json_body = Inr (JList [])\<rparr>) ''Ada'' 2 = Inr None"
    using search_returns_prefix [OF n, where search = "\<lambda>q. Inr \<lparr>json_status = 200, json_body = Inr (JList [])\<rparr>" and qry = "''Ada''"
        and resp = "\<lparr>json_status = 200, json_body = Inr (JList [])\<rparr>" and data = "JList []"]
    by simp
  have no_list: "get_first_n_results_urls (\<lambda>q. Inr \<lparr>json_status = 200, json_body = Inr (JObj [(''items'', JInt 3)])\<rparr>) ''Ada'' 2 = Inr None"
    using search_returns_prefix [OF n, where search = "\<lambda>q. Inr \<lparr>json_status = 200, json_body = Inr (JObj [(''items'', JInt 3)])\<rparr>" and qry = "''Ada''"
        and resp = "\<lparr>json_status = 200, json_body = Inr (JObj [(''items'', JInt 3)])\<rparr>" and kvs = "[(''items'', JInt 3)]" and v = "JInt 3"]
    by simp
  have item: "get_first_n_results_urls (\<lambda>q. Inr \<lparr>json_status = 200, json_body = Inr (JObj [(''items'', JList [JStr ''http://a''])])\<rparr>) ''Ada'' 2 = Inr None"
    using search_returns_prefix [OF n, where search = "\<lambda>q. Inr \<lparr>json_status = 200, json_body = Inr (JObj [(''items'', JList [JStr ''http://a''])])\<rparr>" and qry = "''Ada''"
        and resp = "\<lparr>json_status = 200, json_body = Inr (JObj [(''items'', JList [JStr ''http://a''])])\<rparr>" and kvs = "[(''items'', JList [JStr ''http://a''])]" and xs = "[JStr ''http://a'']"]
    by simp
  have found: "get_first_n_results_urls
     (\<lambda>q. Inr \<lparr>json_status = 200, json_body = Inr (JObj
          [(''items'', JList (map JObj
            [[(''link'', JStr ''http://a'')], [(''title'', JStr ''no link'')],
             [(''link'', JStr ''http://b'')], [(''link'', JStr ''http://c'')]]))])\<rparr>)
     ''Ada'' 2 = Inr (Some [JStr ''http://a'', JStr ''http://b''])"
    and pre: "prefix [JStr ''http://a'', JStr ''http://b'']
     [JStr ''http://a'', JStr ''http://b'', JStr ''http://c'']"
    using search_returns_prefix [OF n, where search = "\<lambda>q. Inr \<lparr>json_status = 200, json_body = Inr (JObj
          [(''items'', JList (map JObj
            [[(''link'', JStr ''http://a'')], [(''title'', JStr ''no link'')],
             [(''link'', JStr ''http://b'')], [(''link'', JStr ''http://c'')]]))])\<rparr>"
        and qry = "''Ada''"
        and resp = "\<lparr>json_status = 200, json_body = Inr (JObj
          [(''items'', JList (map JObj
            [[(''link'', JStr ''http://a'')], [(''title'', JStr ''no link'')],
             [(''link'', JStr ''http://b'')], [(''link'', JStr ''http://c'')]]))])\<rparr>"
        and kvs = "[(''items'', JList (map JObj
            [[(''link'', JStr ''http://a'')], [(''title'', JStr ''no link'')],
             [(''link'', JStr ''http://b'')], [(''link'', JStr ''http://c'')]]))]"
        and items = "[[(''link'', JStr ''http://a'')], [(''title'', JStr ''no link'')],
             [(''link'', JStr ''http://b'')], [(''link'', JStr ''http://c'')]]"
        and links = "[JStr ''http://a'', JStr ''http://b'', JStr ''http://c'']"
        and urls = "[JStr ''http://a'', JStr ''http://b'']"]
    by simp_all
  from raised status body shape no_list item found pre show ?thesis
    by (intro conjI)
qed

text \<open>
  Claim C8 as the specification words it, a list of URL strings, fails on a response
  whose \<open>link\<close> field is the number 7: the step returns the list holding that number.
\<close>

theorem search_returns_non_string:
  "get_first_n_results_urls
     (\<lambda>q. Inr \<lparr>json_status = 200,
                 json_body = Inr (JObj [(''items'', JList [JObj [(''link'', JInt 7)]])])\<rparr>)
     ''Ada'' 1 = Inr (Some [JInt 7])"
  by (simp add: get_first_n_results_urls_def result_links_def json_raise_for_status_def
      py_slice_to_def)

lemma search_never_raises: "\<exists>r. get_first_n_results_urls search qry n = Inr r"
  by (simp add: get_first_n_results_urls_def split: sum.splits)

section \<open>Stages and failure\<close>

lemma scrape_never_raises: "\<exists>r. fst (scrape_wikipedia_content lib soup net url h) = Inr r"
  by (simp add: scrape_wikipedia_content_def split: prod.splits option.splits sum.splits)

lemma generic_tier_raises_on_http_error:
  assumes "net h (generic_request url) = Inr r" and "400 \<le> status_code r" and "status_code r < 600"
  shows "fst (generic_html_scrape soup net url h) = Inl HTTPError"
  using assms by (simp add: generic_html_scrape_def session_get_def raise_for_status_def)

lemma scrape_swallows_http_error:
  assumes "extract_title_from_wiki_url lib url = None"
    and "net h (generic_request url) = Inr r" and "400 \<le> status_code r" and "status_code r < 600"
  shows "scrape_wikipedia_content lib soup net url h =
           (Inr None, h @ [Http_get (generic_request url), Print_error])"
  using assms
  by (simp add: scrape_wikipedia_content_def generic_html_scrape_def session_get_def
      raise_for_status_def)

lemma hosted_stages_never_raise:
  "\<exists>r. extract_claims_from_query validate reply = Inr r"
  "\<exists>r. optimize_claim reply claim = Inr r"
  "\<exists>r. get_query_for_wiki_article reply = Inr r"
  "\<exists>r. find_answer_in_article validate' reply = Inr r"
  by (simp_all add: extract_claims_from_query_def optimize_claim_def get_query_for_wiki_article_def
      find_answer_in_article_def split: sum.splits)

lemma make_request_failure: "chat_content reply = Inl e \<Longrightarrow> make_request reply = JNull"
  by (simp add: make_request_def)

lemma optimize_claim_raises: "optimize_claim (Inl e) claim = Inr claim"
  by (simp add: optimize_claim_def)

lemma local_optimize_claim_fallback:
  "\<not> py_truthy (make_request reply) \<Longrightarrow> local_optimize_claim reply claim = JStr claim"
  by (simp add: local_optimize_claim_def)

text \<open>
  Claim C6. The claim holds for the local client (\<open>local_optimize_claim_fallback\<close>) and
  for a hosted call that raises (\<open>optimize_claim_raises\<close>). It fails for a hosted call
  that returns no output text: \<open>getattr(resp, "output_text", None) or ""\<close> makes
  \<open>optimize_claim\<close> return the empty string, not the claim.
\<close>

theorem optimize_claim_empty_output:
  "optimize_claim (Inr None) ''The Eiffel Tower is 330 metres tall.'' = Inr [] \<and>
   optimize_claim (Inr (Some [])) ''The Eiffel Tower is 330 metres tall.'' = Inr []"
  by (simp add: optimize_claim_def or_empty_def)

text \<open>
  Claim C4. The scraper never raises (\<open>scrape_never_raises\<close>), though its generic tier
  does (\<open>generic_tier_raises_on_http_error\<close>, \<open>scrape_swallows_http_error\<close>), and neither
  do the search step and the hosted stages. The local judge does: when the model's
  answer is a JSON object whose \<open>evidence\<close> is not a string, the constructor of
  \<open>ClaimResult\<close> raises inside the \<open>try\<close>, the handler builds a second \<open>ClaimResult\<close> from
  the same evidence, and that \<open>ValidationError\<close> leaves \<open>find_answer_in_article\<close>.
\<close>

theorem local_judge_raises:
  \<open>local_find_answer_in_article
     (\<lambda>s. if s = ''{"label": "True", "evidence": null}''
          then Inr (JObj [(''label'', JStr ''True''), (''evidence'', JNull)])
          else Inl JSONDecodeError)
     (Inr \<lparr>json_status = 200,
           json_body = Inr (JObj [(''choices'',
             JList [JObj [(''message'',
               JObj [(''content'', JStr ''{"label": "True", "evidence": null}'')])]])])\<rparr>)
   = Inl ValidationError\<close>
  by (simp add: local_find_answer_in_article_def factcheck_claim_def make_request_def
      chat_content_def json_raise_for_status_def claim_result_handler_def before_first_def)

section \<open>The judge\<close>






lemma factcheck_parsed:
  assumes "chat_content reply = Inr (JStr s)" and "s \<noteq> []"
    and "search_verdict_object s = Some m" and "json_loads m = Inr v"
  shows "factcheck_claim json_loads reply = Inr v"
  using assms by (simp add: factcheck_claim_def make_request_def)



lemma local_judge_valid:
  assumes "chat_content reply = Inr (JStr s)" and "s \<noteq> []"
    and "search_verdict_object s = Some m" and "json_loads m = Inr (JObj kvs)"
    and "map_of kvs ''label'' = Some (JStr l)"
    and "map_of kvs ''evidence'' = Some (JStr ev)"
  shows "local_find_answer_in_article json_loads reply =
           Inr (Some \<lparr>label = l, evidence = ev\<rparr>)"
proof -
  have "kvs \<noteq> []"
    using assms(5) by auto
  then show ?thesis
    using factcheck_parsed [of reply s m json_loads "JObj kvs"] assms
    by (simp add: local_find_answer_in_article_def)
qed





section \<open>Sequential and concurrent runs\<close>













lemma single_scrape_order: "mset order = mset [0..<1] \<Longrightarrow> order = [0]"
  by simp





end
